theory Spec2Isabelle
  imports Complex_Main
begin

section \<open>Numbers: array elements\<close>

text \<open>
  The arrays hold double-precision numbers. An element is modelled as an exact real
  number or one of the three special values of the floating-point format; the four
  arithmetic operations follow the floating-point conventions on the special values
  (division by zero gives an infinity or NaN and is no exception in numpy, infinity
  minus infinity is NaN, and so on). Rounding, overflow of finite results and the sign
  of zero are not modelled: a finite result is the exact real result.
\<close>

datatype npfloat = Fin real | PInf | NInf | NaN

fun is_finite :: "npfloat \<Rightarrow> bool" where
  "is_finite (Fin x) = True"
| "is_finite PInf = False"
| "is_finite NInf = False"
| "is_finite NaN = False"

text \<open>The infinity that has the sign of a non-zero real number.\<close>

definition inf_of_sign :: "real \<Rightarrow> npfloat" where
  "inf_of_sign x = (if 0 < x then PInf else NInf)"

instantiation npfloat :: "{plus, uminus, minus, times, inverse}"
begin

fun uminus_npfloat :: "npfloat \<Rightarrow> npfloat" where
  "uminus_npfloat (Fin x) = Fin (- x)"
| "uminus_npfloat PInf = NInf"
| "uminus_npfloat NInf = PInf"
| "uminus_npfloat NaN = NaN"

fun plus_npfloat :: "npfloat \<Rightarrow> npfloat \<Rightarrow> npfloat" where
  "plus_npfloat (Fin x) (Fin y) = Fin (x + y)"
| "plus_npfloat NaN b = NaN"
| "plus_npfloat a NaN = NaN"
| "plus_npfloat PInf NInf = NaN"
| "plus_npfloat NInf PInf = NaN"
| "plus_npfloat PInf b = PInf"
| "plus_npfloat a PInf = PInf"
| "plus_npfloat NInf b = NInf"
| "plus_npfloat a NInf = NInf"

definition minus_npfloat :: "npfloat \<Rightarrow> npfloat \<Rightarrow> npfloat" where
  "minus_npfloat a b = a + (- b)"

fun times_npfloat :: "npfloat \<Rightarrow> npfloat \<Rightarrow> npfloat" where
  "times_npfloat (Fin x) (Fin y) = Fin (x * y)"
| "times_npfloat NaN b = NaN"
| "times_npfloat a NaN = NaN"
| "times_npfloat (Fin x) PInf = (if x = 0 then NaN else inf_of_sign x)"
| "times_npfloat (Fin x) NInf = (if x = 0 then NaN else inf_of_sign (- x))"
| "times_npfloat PInf (Fin y) = (if y = 0 then NaN else inf_of_sign y)"
| "times_npfloat NInf (Fin y) = (if y = 0 then NaN else inf_of_sign (- y))"
| "times_npfloat PInf PInf = PInf"
| "times_npfloat PInf NInf = NInf"
| "times_npfloat NInf PInf = NInf"
| "times_npfloat NInf NInf = PInf"

fun divide_npfloat :: "npfloat \<Rightarrow> npfloat \<Rightarrow> npfloat" where
  "divide_npfloat (Fin x) (Fin y) =
     (if y = 0 then (if x = 0 then NaN else inf_of_sign x) else Fin (x / y))"
| "divide_npfloat NaN b = NaN"
| "divide_npfloat a NaN = NaN"
| "divide_npfloat (Fin x) PInf = Fin 0"
| "divide_npfloat (Fin x) NInf = Fin 0"
| "divide_npfloat PInf (Fin y) = (if 0 \<le> y then PInf else NInf)"
| "divide_npfloat NInf (Fin y) = (if 0 \<le> y then NInf else PInf)"
| "divide_npfloat PInf PInf = NaN"
| "divide_npfloat PInf NInf = NaN"
| "divide_npfloat NInf PInf = NaN"
| "divide_npfloat NInf NInf = NaN"

definition inverse_npfloat :: "npfloat \<Rightarrow> npfloat" where
  "inverse_npfloat a = divide (Fin 1) a"

instance ..

end

text \<open>\<open>np.sum\<close> of a one-dimensional array; the sum of no element is 0.\<close>

fun fl_sum :: "npfloat list \<Rightarrow> npfloat" where
  "fl_sum [] = Fin 0"
| "fl_sum (x # xs) = x + fl_sum xs"

section \<open>Arrays\<close>

text \<open>
  An \<open>ndarray\<close> is its shape and its elements in row-major order. The element at
  \<open>[i, j]\<close> of an array of shape \<open>(r, c)\<close> is element \<open>i * c + j\<close> of the data.
\<close>

record ndarray =
  shape :: "nat list"
  data :: "npfloat list"

definition ndim :: "ndarray \<Rightarrow> nat" where
  "ndim a = length (shape a)"

definition wf_ndarray :: "ndarray \<Rightarrow> bool" where
  "wf_ndarray a \<longleftrightarrow> length (data a) = prod_list (shape a)"

datatype py_error = ValueError string | IndexError

text \<open>Sequencing of computations that may raise.\<close>

fun bind_err :: "py_error + 'a \<Rightarrow> ('a \<Rightarrow> py_error + 'b) \<Rightarrow> py_error + 'b" where
  "bind_err (Inl e) f = Inl e"
| "bind_err (Inr x) f = f x"

text \<open>
  \<open>a[i, j]\<close> with two non-negative indices. An array of fewer than two dimensions
  raises IndexError (too many indices), as does an index out of bounds. On an array of
  more than two dimensions numpy returns a sub-array; the only array indexed this way
  below is the result of \<open>np.cov\<close>, which has at most two dimensions, and the model
  gives IndexError there as well.
\<close>

definition getitem2 :: "ndarray \<Rightarrow> nat \<Rightarrow> nat \<Rightarrow> py_error + npfloat" where
  "getitem2 a i j =
     (case shape a of
        [r, c] \<Rightarrow> if i < r \<and> j < c then Inr (data a ! (i * c + j)) else Inl IndexError
      | _ \<Rightarrow> Inl IndexError)"

text \<open>The rows and the columns of a two-dimensional array of shape \<open>(r, c)\<close>.\<close>

definition rows2 :: "nat \<Rightarrow> nat \<Rightarrow> npfloat list \<Rightarrow> npfloat list list" where
  "rows2 r c d = map (\<lambda>i. map (\<lambda>j. d ! (i * c + j)) [0..<c]) [0..<r]"

definition cols2 :: "nat \<Rightarrow> nat \<Rightarrow> npfloat list \<Rightarrow> npfloat list list" where
  "cols2 r c d = map (\<lambda>j. map (\<lambda>i. d ! (i * c + j)) [0..<r]) [0..<c]"

text \<open>\<open>a.squeeze()\<close>: the axes of length one are removed, the data is unchanged.\<close>

definition squeeze :: "ndarray \<Rightarrow> ndarray" where
  "squeeze a = a\<lparr>shape := filter (\<lambda>n. n \<noteq> 1) (shape a)\<rparr>"

section \<open>The covariance matrix: \<open>np.cov(X, rowvar=False)\<close>\<close>

text \<open>
  \<open>tc_covar\<close> calls \<open>np.cov(X, rowvar=False)\<close> with every other argument at its
  default (\<open>ddof = 1\<close>, no weights). numpy computes it as follows:
  \<^item> more than two dimensions raise ValueError; fewer are padded with leading axes of
    length one (\<open>ndmin=2\<close>);
  \<^item> with \<open>rowvar=False\<close> the array is transposed, so that each column is one
    variable. numpy before version 2.2 does not transpose an array of a single row
    (\<open>X.shape[0] != 1\<close>); numpy since version 2.2 transposes unless the argument was
    one-dimensional (\<open>m.ndim != 1\<close>). The two differ on two-dimensional arrays of
    one row only; the argument of type \<open>numpy\<close> says which of the two is in use;
  \<^item> no variable gives the empty array of shape \<open>(0, 0)\<close>;
  \<^item> the mean of each variable is subtracted from it (\<open>X -= avg[:, None]\<close>);
  \<^item> the normalisation \<open>fact\<close> is the number of observations minus \<open>ddof\<close>, replaced
    by \<open>0.0\<close> (with a warning, not an exception) when it is not positive;
  \<^item> the result is \<open>dot(X, X.T) * (1 / fact)\<close>, squeezed.
\<close>

datatype numpy = Before_2_2 | Since_2_2

definition np_mean :: "npfloat list \<Rightarrow> npfloat" where
  "np_mean xs = fl_sum xs / Fin (real (length xs))"

definition centre :: "npfloat list \<Rightarrow> npfloat list" where
  "centre xs = map (\<lambda>x. x - np_mean xs) xs"

definition np_dot :: "npfloat list \<Rightarrow> npfloat list \<Rightarrow> npfloat" where
  "np_dot xs ys = fl_sum (map (\<lambda>(x, y). x * y) (zip xs ys))"

definition np_cov :: "numpy \<Rightarrow> ndarray \<Rightarrow> py_error + ndarray" where
  "np_cov v m =
     (if 2 < ndim m then Inl (ValueError ''m has more than 2 dimensions'')
      else
        let sh = replicate (2 - ndim m) 1 @ shape m;
            r = sh ! 0;
            c = sh ! 1;
            transposed = (case v of Before_2_2 \<Rightarrow> r \<noteq> 1 | Since_2_2 \<Rightarrow> ndim m \<noteq> 1);
            vars = (if transposed then cols2 r c (data m) else rows2 r c (data m))
        in if vars = [] then Inr \<lparr>shape = [0, 0], data = []\<rparr>
           else
             let nobs = (if transposed then r else c);
                 fact = (if int nobs - 1 \<le> 0 then 0 else real nobs - 1);
                 X = map centre vars;
                 k = length vars
             in Inr (squeeze \<lparr>shape = [k, k],
                   data = concat (map (\<lambda>a. map (\<lambda>b. np_dot a b * (Fin 1 / Fin fact)) X) X)\<rparr>))"

section \<open>Triple collocation: \<open>tc_covar\<close>\<close>

text \<open>The decimal digits of a natural number, as an f-string prints it.\<close>

fun str_nat :: "nat \<Rightarrow> string" where
  "str_nat n =
     (if n < 10 then [''0123456789'' ! n]
      else str_nat (n div 10) @ [''0123456789'' ! (n mod 10)])"

declare str_nat.simps [simp del]

text \<open>
  \<open>tc_covar(X)\<close>: the two shape checks, each raising ValueError with its message; the
  covariance matrix of the columns; the three estimates. The entries of \<open>covar\<close> are
  read in the order in which the source reads them first; reading raises IndexError
  when \<open>covar\<close> is not a matrix. The result is a new array of shape \<open>(3)\<close>.
\<close>

definition tc_covar :: "numpy \<Rightarrow> ndarray \<Rightarrow> py_error + ndarray" where
  "tc_covar v X =
     (if ndim X \<noteq> 2 then
        Inl (ValueError (''X must be a 2D array input. Current number of dimensions: ''
                         @ str_nat (ndim X)))
      else if shape X ! 1 \<noteq> 3 then
        Inl (ValueError (''X must have a trailing dimension of length 3.''
                         @ ''Current trailing dimension length: '' @ str_nat (shape X ! 1)))
      else
        bind_err (np_cov v X) (\<lambda>covar.
        bind_err (getitem2 covar 0 0) (\<lambda>c00.
        bind_err (getitem2 covar 0 1) (\<lambda>c01.
        bind_err (getitem2 covar 0 2) (\<lambda>c02.
        bind_err (getitem2 covar 1 2) (\<lambda>c12.
        bind_err (getitem2 covar 1 1) (\<lambda>c11.
        bind_err (getitem2 covar 2 2) (\<lambda>c22.
          Inr \<lparr>shape = [3],
               data = [c00 - c01 * c02 / c12,
                       c11 - c01 * c12 / c02,
                       c22 - c02 * c12 / c01]\<rparr>))))))))"

text \<open>The two messages of the shape checks.\<close>

definition ndim_message :: "nat \<Rightarrow> string" where
  "ndim_message n = ''X must be a 2D array input. Current number of dimensions: '' @ str_nat n"

definition trailing_message :: "nat \<Rightarrow> string" where
  "trailing_message n =
     ''X must have a trailing dimension of length 3.'' @ ''Current trailing dimension length: ''
       @ str_nat n"

section \<open>The affine error model: \<open>generate_sample\<close>\<close>

text \<open>
  \<open>np.convolve(a, ones(5) / 5, "same")\<close> for an array \<open>a\<close> of at least five values:
  the result has the length of \<open>a\<close>, and its entry \<open>i\<close> is the sum of the products
  of the entries of \<open>a\<close> at the positions \<open>i - 2, \<dots>, i + 2\<close> that exist with the
  weight \<open>1 / 5\<close>.
\<close>

definition boxcar_same :: "npfloat list \<Rightarrow> npfloat list" where
  "boxcar_same a =
     map (\<lambda>i. fl_sum (map (\<lambda>m. a ! m * (Fin 1 / Fin 5)) [i - 2..<min (length a) (i + 3)]))
       [0..<length a]"

text \<open>Entry \<open>k\<close> of a one-dimensional array broadcast along an axis: an array of one
  entry is repeated.\<close>

definition broadcast_get :: "npfloat list \<Rightarrow> nat \<Rightarrow> npfloat" where
  "broadcast_get a k = (if length a = 1 then a ! 0 else a ! k)"

text \<open>The message of numpy for two shapes \<open>(l,)\<close> and \<open>(n, k)\<close>, or \<open>(n, j)\<close> and
  \<open>(n, k)\<close>, that cannot be broadcast together.\<close>

definition broadcast_message_1 :: "nat \<Rightarrow> nat \<Rightarrow> nat \<Rightarrow> string" where
  "broadcast_message_1 l n k =
     ''operands could not be broadcast together with shapes ('' @ str_nat l @ '',) (''
       @ str_nat n @ '','' @ str_nat k @ '') ''"

definition broadcast_message_2 :: "nat \<Rightarrow> nat \<Rightarrow> nat \<Rightarrow> string" where
  "broadcast_message_2 n j k =
     ''operands could not be broadcast together with shapes ('' @ str_nat n @ '','' @ str_nat j
       @ '') ('' @ str_nat n @ '','' @ str_nat k @ '') ''"

text \<open>
  \<open>generate_sample(nsamples, sigma, alpha, beta)\<close>, for one-dimensional \<open>alpha\<close> and
  \<open>beta\<close>. The values that the two random generators return are parameters of the
  model: \<open>uniform n\<close> is value \<open>n\<close> of \<open>np.random.uniform(0, 10, nsamples)\<close> and
  \<open>normal n i\<close> is the entry for sample \<open>n\<close> and system \<open>i\<close> of
  \<open>np.random.multivariate_normal(\<dots>, sigma, nsamples)\<close>. Of \<open>sigma\<close> only the shape
  is read here: its entries fix the distribution of the errors drawn, and the
  decomposition of \<open>sigma\<close> inside the generator is not part of the model. Statement
  by statement:
  \<^item> \<open>np.convolve\<close> exchanges its arguments when the second is the longer one and
    raises ValueError when the shorter one is empty; with fewer than five samples
    its result has five values;
  \<^item> \<open>sigma[:, 0]\<close> raises IndexError unless \<open>sigma\<close> has two axes and a first
    column; \<open>multivariate_normal\<close> raises ValueError unless \<open>sigma\<close> is a square
    matrix;
  \<^item> \<open>t.reshape((nsamples, 1))\<close> raises ValueError when \<open>t\<close> has five values and
    \<open>nsamples\<close> is smaller;
  \<^item> \<open>alpha + beta * t.reshape((nsamples, 1)) + errors\<close> is evaluated from the left
    with broadcasting; axes of different lengths, none of them one, raise ValueError.
\<close>

definition generate_sample ::
    "nat \<Rightarrow> ndarray \<Rightarrow> npfloat list \<Rightarrow> npfloat list \<Rightarrow> (nat \<Rightarrow> npfloat) \<Rightarrow>
     (nat \<Rightarrow> nat \<Rightarrow> npfloat) \<Rightarrow> py_error + ndarray" where
  "generate_sample nsamples sigma alpha beta uniform normal =
     (if nsamples = 0 then Inl (ValueError ''v cannot be empty'')
      else if ndim sigma < 2 \<or> shape sigma ! 1 = 0 then Inl IndexError
      else if ndim sigma \<noteq> 2 \<or> shape sigma ! 0 \<noteq> shape sigma ! 1 then
        Inl (ValueError ''cov must be 2 dimensional and square'')
      else if nsamples < 5 then
        Inl (ValueError (''cannot reshape array of size 5 into shape ('' @ str_nat nsamples
                         @ '',1)''))
      else
        let M = shape sigma ! 0;
            t = boxcar_same (map uniform [0..<nsamples]);
            la = length alpha;
            lb = length beta;
            K1 = (if lb = 1 then la else lb)
        in if la \<noteq> lb \<and> la \<noteq> 1 \<and> lb \<noteq> 1 then
             Inl (ValueError (broadcast_message_1 la nsamples lb))
           else if K1 \<noteq> M \<and> K1 \<noteq> 1 \<and> M \<noteq> 1 then
             Inl (ValueError (broadcast_message_2 nsamples K1 M))
           else
             let K = (if M = 1 then K1 else M)
             in Inr \<lparr>shape = [nsamples, K],
                  data = concat (map (\<lambda>n. map (\<lambda>k.
                           broadcast_get alpha k + broadcast_get beta k * t ! n
                             + normal n (if M = 1 then 0 else k)) [0..<K]) [0..<nsamples])\<rparr>)"

section \<open>Extended collocation: \<open>ec_covar\<close>\<close>

text \<open>
  The notebooks load \<open>ec_covar\<close> and \<open>ec_covar_multi\<close> with
  \<open>%run ../TC/EC_function.ipynb\<close>; that notebook is missing from the sources, so both
  functions and their helpers are modelled from the specification of the EC solver and
  of the batched driver.
\<close>

text \<open>
  Modelled from the spec: the selection of helper systems in the missing
  \<open>ec_covar\<close>. For the ordered pair \<open>(i, j)\<close> a pair \<open>(k, l)\<close> is valid when \<open>k\<close> is in
  another group than \<open>i\<close>, \<open>l\<close> in another group than \<open>j\<close>, and \<open>k\<close> and \<open>l\<close> are in
  different groups.
\<close>

definition valid_helpers :: "nat list \<Rightarrow> nat \<Rightarrow> nat \<Rightarrow> nat \<times> nat \<Rightarrow> bool" where
  "valid_helpers corr_sets i j kl =
     (case kl of (k, l) \<Rightarrow>
        k < length corr_sets \<and> l < length corr_sets \<and>
        corr_sets ! k \<noteq> corr_sets ! i \<and> corr_sets ! l \<noteq> corr_sets ! j \<and>
        corr_sets ! k \<noteq> corr_sets ! l)"

text \<open>
  Modelled from the spec: the entry \<open>(i, j)\<close> of the result of the missing
  \<open>ec_covar\<close>, \<open>covar[i,j] - covar[i,k] * covar[j,l] / covar[k,l]\<close>, on an
  \<open>M \<times> M\<close> covariance matrix.
\<close>

definition ec_entry :: "ndarray \<Rightarrow> nat \<Rightarrow> nat \<Rightarrow> nat \<Rightarrow> nat \<times> nat \<Rightarrow> npfloat" where
  "ec_entry covar M i j kl =
     (case kl of (k, l) \<Rightarrow>
        data covar ! (i * M + j)
          - data covar ! (i * M + k) * data covar ! (j * M + l) / data covar ! (k * M + l))"

text \<open>
  Modelled from the spec: the preconditions of the missing \<open>ec_covar\<close> and
  \<open>ec_covar_multi\<close> on the number of systems \<open>M\<close> and on the grouping: at least three
  systems, one group label per system, at least three distinct labels. A violation is a
  ValueError; the specification does not give the texts of the messages.
\<close>

definition ec_preconditions :: "nat \<Rightarrow> nat list \<Rightarrow> py_error option" where
  "ec_preconditions M corr_sets =
     (if M < 3 then Some (ValueError ''X must have 3 or more systems.'')
      else if length corr_sets \<noteq> M then
        Some (ValueError ''corr_sets must have one entry per system.'')
      else if length (remdups corr_sets) < 3 then
        Some (ValueError ''corr_sets must have at least 3 distinct values.'')
      else None)"

text \<open>
  Modelled from the spec: \<open>ec_covar\<close>, defined in the missing
  \<open>TC/EC_function.ipynb\<close>. The sample array must be two-dimensional and satisfy the
  preconditions; its covariance matrix is built with \<open>np.cov\<close>; the result is the
  \<open>M \<times> M\<close> matrix of the entries above. Which valid pair of helper systems is
  selected is left open by the specification, so the selection \<open>pick\<close> is a parameter.
\<close>

definition ec_covar ::
    "numpy \<Rightarrow> (nat list \<Rightarrow> nat \<Rightarrow> nat \<Rightarrow> nat \<times> nat) \<Rightarrow> ndarray \<Rightarrow> nat list \<Rightarrow> py_error + ndarray" where
  "ec_covar v pick X corr_sets =
     (if ndim X \<noteq> 2 then Inl (ValueError ''X must be a 2D array input.'')
      else
        case ec_preconditions (shape X ! 1) corr_sets of
          Some e \<Rightarrow> Inl e
        | None \<Rightarrow>
            bind_err (np_cov v X) (\<lambda>covar.
              let M = shape X ! 1
              in if shape covar \<noteq> [M, M] then Inl IndexError
                 else Inr \<lparr>shape = [M, M],
                        data = concat (map (\<lambda>i. map (\<lambda>j. ec_entry covar M i j (pick corr_sets i j))
                                                  [0..<M]) [0..<M])\<rparr>))"

text \<open>
  Modelled from the spec: one selection of helper systems for the missing \<open>ec_covar\<close>,
  the first valid pair in the order \<open>(0, 0), (0, 1), \<dots>\<close>. With three distinct labels a
  valid pair exists for every \<open>(i, j)\<close>; the pair \<open>(0, 0)\<close> stands for the case that none
  does.
\<close>

definition first_helpers :: "nat list \<Rightarrow> nat \<Rightarrow> nat \<Rightarrow> nat \<times> nat" where
  "first_helpers corr_sets i j =
     (case filter (valid_helpers corr_sets i j)
             (List.product [0..<length corr_sets] [0..<length corr_sets]) of
        [] \<Rightarrow> (0, 0)
      | kl # _ \<Rightarrow> kl)"

section \<open>The batched driver: \<open>ec_covar_multi\<close>\<close>

text \<open>
  The position of a multi-index in the row-major enumeration of an index space with
  the given axis lengths (\<open>np.ravel_multi_index\<close>).
\<close>

fun ravel :: "nat list \<Rightarrow> nat list \<Rightarrow> nat" where
  "ravel (d # ds) (i # is) = i * prod_list ds + ravel ds is"
| "ravel ds is = 0"

text \<open>
  \<open>X[:, :, idx]\<close> for an array of shape \<open>(r, c, \<dots>extra\<dots>)\<close>, where \<open>e\<close> is the position
  of the multi-index \<open>idx\<close> among the extra axes: a two-dimensional array of shape
  \<open>(r, c)\<close>.
\<close>

definition take_slice :: "ndarray \<Rightarrow> nat \<Rightarrow> ndarray" where
  "take_slice X e =
     (let r = shape X ! 0; c = shape X ! 1; E = prod_list (drop 2 (shape X))
      in \<lparr>shape = [r, c], data = map (\<lambda>p. data X ! (p * E + e)) [0..<r * c]\<rparr>)"

text \<open>The results of a list of computations, or the first error among them.\<close>

fun collect :: "(py_error + 'a) list \<Rightarrow> py_error + 'a list" where
  "collect [] = Inr []"
| "collect (r # rs) = bind_err r (\<lambda>x. bind_err (collect rs) (\<lambda>xs. Inr (x # xs)))"

text \<open>
  Modelled from the spec: \<open>ec_covar_multi\<close>, defined in the missing
  \<open>TC/EC_function.ipynb\<close>. The input has shape \<open>(N, M, \<dots>extra\<dots>)\<close>; the
  preconditions are those of the scalar solver, with rank at least two; the covariance
  builder and the EC solver are applied to the slice at each index of the extra axes;
  the result has shape \<open>(M, M, \<dots>extra\<dots>)\<close> and holds, at each such index, the matrix
  of that slice.
\<close>

definition ec_covar_multi ::
    "numpy \<Rightarrow> (nat list \<Rightarrow> nat \<Rightarrow> nat \<Rightarrow> nat \<times> nat) \<Rightarrow> ndarray \<Rightarrow> nat list \<Rightarrow> py_error + ndarray" where
  "ec_covar_multi v pick X corr_sets =
     (if ndim X < 2 then Inl (ValueError ''X must have 2 or more dimensions.'')
      else
        case ec_preconditions (shape X ! 1) corr_sets of
          Some e \<Rightarrow> Inl e
        | None \<Rightarrow>
            let M = shape X ! 1; extra = drop 2 (shape X); E = prod_list extra
            in bind_err (collect (map (\<lambda>e. ec_covar v pick (take_slice X e) corr_sets) [0..<E]))
                 (\<lambda>Cs. Inr \<lparr>shape = M # M # extra,
                          data = concat (map (\<lambda>p. map (\<lambda>e. data (Cs ! e) ! p) [0..<E])
                                    [0..<M * M])\<rparr>))"
section \<open>Effects: \<open>tc_covar\<close> on a store of arrays\<close>

text \<open>
  To state what a call of \<open>tc_covar\<close> reads and writes, the arrays live in a store: a
  list of array objects, an object being named by its position. A call receives the
  store and the position of its argument and returns its result together with the new
  store. Allocation appends an object; an in-place operation replaces the data of an
  object that exists.

  \<open>tc_covar\<close> itself assigns to no array. \<open>np.cov\<close> does: it copies its argument
  (\<open>X = array(m, ndmin=2, dtype=dtype)\<close>), transposes the copy as a view, subtracts the
  means in place (\<open>X -= avg[:, None]\<close>), allocates the product \<open>c = dot(X, X.T)\<close> and
  scales it in place (\<open>c *= np.true_divide(1, fact)\<close>). A view is modelled by reading
  and writing the object it views with the index arithmetic of the view;
  \<open>c.squeeze()\<close>, a view of an object nothing else refers to, is modelled as a new
  object.
\<close>

type_synonym store = "ndarray list"

definition alloc :: "store \<Rightarrow> ndarray \<Rightarrow> nat \<times> store" where
  "alloc h a = (length h, h @ [a])"

text \<open>The variables of the copy, read through the view or directly.\<close>

definition view_rows :: "bool \<Rightarrow> nat \<Rightarrow> nat \<Rightarrow> npfloat list \<Rightarrow> npfloat list list" where
  "view_rows transposed r c d = (if transposed then cols2 r c d else rows2 r c d)"

text \<open>
  \<open>X -= avg[:, None]\<close> on the data of the object: element \<open>k\<close> belongs to the variable
  \<open>k mod c\<close> when \<open>X\<close> is the transposed view and to the variable \<open>k div c\<close> otherwise.
\<close>

definition isub_avg :: "bool \<Rightarrow> nat \<Rightarrow> npfloat list \<Rightarrow> npfloat list \<Rightarrow> npfloat list" where
  "isub_avg transposed c d avg =
     map (\<lambda>k. d ! k - avg ! (if transposed then k mod c else k div c)) [0..<length d]"

definition np_cov_st :: "numpy \<Rightarrow> store \<Rightarrow> nat \<Rightarrow> (py_error + nat) \<times> store" where
  "np_cov_st v h p =
     (let m = h ! p
      in if 2 < ndim m then (Inl (ValueError ''m has more than 2 dimensions''), h)
         else
           let sh = replicate (2 - ndim m) 1 @ shape m;
               r = sh ! 0;
               c = sh ! 1;
               (q, h1) = alloc h \<lparr>shape = sh, data = data m\<rparr>;
               transposed = (case v of Before_2_2 \<Rightarrow> r \<noteq> 1 | Since_2_2 \<Rightarrow> ndim m \<noteq> 1);
               k = (if transposed then c else r)
           in if k = 0 then
                (let (e, h2) = alloc h1 \<lparr>shape = [0, 0], data = []\<rparr> in (Inr e, h2))
              else
                let nobs = (if transposed then r else c);
                    fact = (if int nobs - 1 \<le> 0 then 0 else real nobs - 1);
                    (a, h2) = alloc h1 \<lparr>shape = [k],
                                 data = map np_mean (view_rows transposed r c (data (h1 ! q)))\<rparr>;
                    h3 = h2[q := (h2 ! q)\<lparr>data := isub_avg transposed c (data (h2 ! q))
                                                  (data (h2 ! a))\<rparr>];
                    X = view_rows transposed r c (data (h3 ! q));
                    (cc, h4) = alloc h3 \<lparr>shape = [k, k],
                                  data = concat (map (\<lambda>x. map (\<lambda>y. np_dot x y) X) X)\<rparr>;
                    h5 = h4[cc := (h4 ! cc)\<lparr>data := map (\<lambda>x. x * (Fin 1 / Fin fact))
                                                    (data (h4 ! cc))\<rparr>];
                    (s, h6) = alloc h5 (squeeze (h5 ! cc))
                in (Inr s, h6))"

text \<open>The estimates from the covariance matrix, as in the body of \<open>tc_covar\<close>.\<close>

definition tc_from_covar :: "ndarray \<Rightarrow> py_error + ndarray" where
  "tc_from_covar covar =
     bind_err (getitem2 covar 0 0) (\<lambda>c00.
     bind_err (getitem2 covar 0 1) (\<lambda>c01.
     bind_err (getitem2 covar 0 2) (\<lambda>c02.
     bind_err (getitem2 covar 1 2) (\<lambda>c12.
     bind_err (getitem2 covar 1 1) (\<lambda>c11.
     bind_err (getitem2 covar 2 2) (\<lambda>c22.
       Inr \<lparr>shape = [3],
            data = [c00 - c01 * c02 / c12,
                    c11 - c01 * c12 / c02,
                    c22 - c02 * c12 / c01]\<rparr>))))))"

definition tc_covar_st :: "numpy \<Rightarrow> store \<Rightarrow> nat \<Rightarrow> (py_error + nat) \<times> store" where
  "tc_covar_st v h p =
     (let X = h ! p
      in if ndim X \<noteq> 2 then
           (Inl (ValueError (''X must be a 2D array input. Current number of dimensions: ''
                             @ str_nat (ndim X))), h)
         else if shape X ! 1 \<noteq> 3 then
           (Inl (ValueError (''X must have a trailing dimension of length 3.''
                             @ ''Current trailing dimension length: '' @ str_nat (shape X ! 1))), h)
         else
           case np_cov_st v h p of
             (Inl e, h1) \<Rightarrow> (Inl e, h1)
           | (Inr covar, h1) \<Rightarrow>
               (case tc_from_covar (h1 ! covar) of
                  Inl e \<Rightarrow> (Inl e, h1)
                | Inr evar \<Rightarrow> (let (r, h2) = alloc h1 evar in (Inr r, h2))))"

text \<open>What a call returns: the error, or the array that the returned position names.\<close>

definition outcome :: "(py_error + nat) \<times> store \<Rightarrow> py_error + ndarray" where
  "outcome rh = (case rh of (r, h) \<Rightarrow> map_sum id (\<lambda>a. h ! a) r)"

section \<open>Notions for the statements\<close>

subsection \<open>The covariance matrix entry by entry\<close>

text \<open>
  Column \<open>i\<close> of a two-dimensional array (the observations of system \<open>i\<close>), the
  normalisation \<open>fact\<close> for \<open>n\<close> observations, and the entry \<open>(i, j)\<close> of the
  covariance matrix as \<open>np.cov\<close> computes it from the columns.
\<close>

definition column :: "ndarray \<Rightarrow> nat \<Rightarrow> npfloat list" where
  "column X i = map (\<lambda>n. data X ! (n * (shape X ! 1) + i)) [0..<shape X ! 0]"

definition fact_of :: "nat \<Rightarrow> real" where
  "fact_of n = (if int n - 1 \<le> 0 then 0 else real n - 1)"

definition cov_entry :: "ndarray \<Rightarrow> nat \<Rightarrow> nat \<Rightarrow> npfloat" where
  "cov_entry X i j =
     np_dot (centre (column X i)) (centre (column X j)) * (Fin 1 / Fin (fact_of (shape X ! 0)))"


text \<open>
  The padded shape, the numbers of rows and columns, and whether \<open>np.cov\<close> transposes:
  the part of \<open>np.cov\<close> that depends on the shape alone.
\<close>

definition cov_geometry :: "numpy \<Rightarrow> ndarray \<Rightarrow> nat list \<times> nat \<times> nat \<times> bool" where
  "cov_geometry v m =
     (let sh = replicate (2 - ndim m) 1 @ shape m;
          r = sh ! 0;
          c = sh ! 1
      in (sh, r, c, (case v of Before_2_2 \<Rightarrow> r \<noteq> 1 | Since_2_2 \<Rightarrow> ndim m \<noteq> 1)))"

section \<open>Example inputs\<close>

text \<open>
  A sample of three systems; its covariance matrix; a sample in which systems 1 and 2
  have covariance zero; a sample whose first estimate is negative, and its covariance
  matrix; a sample of one row.
\<close>

definition tc_example :: ndarray where
  "tc_example = \<lparr>shape = [3, 3], data = map Fin [1, 2, 3, 2, 1, 5, 4, 3, 4]\<rparr>"

definition tc_example_cov :: ndarray where
  "tc_example_cov = \<lparr>shape = [3, 3],
     data = map Fin [7 / 3, 1, 1 / 2, 1, 1, - (1 / 2), 1 / 2, - (1 / 2), 1]\<rparr>"

definition zero_cov_example :: ndarray where
  "zero_cov_example = \<lparr>shape = [3, 3], data = map Fin [1, 0, 1, 2, 1, 0, 4, 0, - 1]\<rparr>"

definition negative_example :: ndarray where
  "negative_example = \<lparr>shape = [3, 3], data = map Fin [3, 6, 3, 3, 4, - 1, 6, 2, 4]\<rparr>"

definition negative_example_cov :: ndarray where
  "negative_example_cov = \<lparr>shape = [3, 3],
     data = map Fin [3, - 3, 3, - 3, 4, - 1, 3, - 1, 7]\<rparr>"

definition single_row_example :: ndarray where
  "single_row_example = \<lparr>shape = [1, 3], data = map Fin [1, 2, 3]\<rparr>"








text \<open>A batch of two slices: \<open>tc_example\<close> at index 0 and \<open>zero_cov_example\<close> at index 1.\<close>

definition batch_example :: ndarray where
  "batch_example = \<lparr>shape = [3, 3, 2],
     data = map Fin [1, 1, 2, 0, 3, 1, 2, 2, 1, 1, 5, 0, 4, 4, 3, 0, 4, - 1]\<rparr>"

text \<open>A store of two arrays.\<close>

definition two_arrays :: store where
  "two_arrays = [tc_example, zero_cov_example]"

section \<open>Properties\<close>

lemma concat_rows_nth:
  "i < length xs \<Longrightarrow> j < length ys \<Longrightarrow>
   concat (map (\<lambda>a. map (f a) ys) xs) ! (i * length ys + j) = f (xs ! i) (ys ! j)"
proof (induction xs arbitrary: i)
  case Nil
  then show ?case by simp
next
  case (Cons x xs)
  show ?case
  proof (cases i)
    case 0
    with Cons.prems show ?thesis by (simp add: nth_append)
  next
    case (Suc k)
    with Cons.prems have "k < length xs" by simp
    from Cons.IH [OF this Cons.prems(2)] Suc Cons.prems show ?thesis
      by (simp add: nth_append add.assoc)
  qed
qed

lemma cols2_nth: "i < c \<Longrightarrow> cols2 r c d ! i = map (\<lambda>n. d ! (n * c + i)) [0..<r]"
  by (simp add: cols2_def)

lemma length_cols2: "length (cols2 r c d) = c"
  by (simp add: cols2_def)

lemma np_cov_columns:
  assumes "shape X = [N, M]" and "M \<noteq> 0" and "v = Since_2_2 \<or> N \<noteq> 1"
  shows "np_cov v X = Inr (squeeze \<lparr>shape = [M, M],
           data = concat (map (\<lambda>a. map (\<lambda>b. np_dot a b * (Fin 1 / Fin (fact_of N)))
                     (map centre (cols2 N M (data X)))) (map centre (cols2 N M (data X))))\<rparr>)"
proof -
  have ne: "cols2 N M (data X) \<noteq> []"
    using assms(2) length_cols2 [of N M "data X"] by auto
  show ?thesis
    using assms ne
    by (cases v) (simp_all add: np_cov_def ndim_def Let_def fact_of_def length_cols2)
qed

lemma np_cov_getitem2:
  assumes "shape X = [N, M]" and "2 \<le> M" and "v = Since_2_2 \<or> N \<noteq> 1"
    and "np_cov v X = Inr C" and "i < M" and "j < M"
  shows "getitem2 C i j = Inr (cov_entry X i j)"
proof -
  let ?cs = "map centre (cols2 N M (data X))"
  have len: "length ?cs = M" by (simp add: length_cols2)
  have C: "C = \<lparr>shape = [M, M],
           data = concat (map (\<lambda>a. map (\<lambda>b. np_dot a b * (Fin 1 / Fin (fact_of N))) ?cs) ?cs)\<rparr>"
    using np_cov_columns [OF assms(1) _ assms(3)] assms(2,4)
    by (simp add: squeeze_def)
  have "concat (map (\<lambda>a. map (\<lambda>b. np_dot a b * (Fin 1 / Fin (fact_of N))) ?cs) ?cs) ! (i * length ?cs + j)
        = np_dot (?cs ! i) (?cs ! j) * (Fin 1 / Fin (fact_of N))"
    using assms(5,6) len by (intro concat_rows_nth) simp_all
  then show ?thesis
    using assms(1,5,6) len
    by (simp add: C getitem2_def cov_entry_def column_def cols2_nth length_cols2)
qed

lemma tc_covar_regular:
  assumes "shape X = [N, 3]" and "v = Since_2_2 \<or> N \<noteq> 1"
  shows "tc_covar v X = Inr \<lparr>shape = [3],
           data = [cov_entry X 0 0 - cov_entry X 0 1 * cov_entry X 0 2 / cov_entry X 1 2,
                   cov_entry X 1 1 - cov_entry X 0 1 * cov_entry X 1 2 / cov_entry X 0 2,
                   cov_entry X 2 2 - cov_entry X 0 2 * cov_entry X 1 2 / cov_entry X 0 1]\<rparr>"
proof -
  obtain C where C: "np_cov v X = Inr C"
    using np_cov_columns [OF assms(1) _ assms(2)] by simp
  have g: "getitem2 C i j = Inr (cov_entry X i j)" if "i < 3" "j < 3" for i j
    using np_cov_getitem2 [OF assms(1) _ assms(2) C] that by simp
  show ?thesis
    using assms(1) by (simp add: tc_covar_def ndim_def C g)
qed

lemma np_cov_single_row_legacy:
  assumes "shape X = [1, M]" and "M \<noteq> 0"
  shows "\<exists>d. np_cov Before_2_2 X = Inr \<lparr>shape = [], data = d\<rparr>"
  using assms by (simp add: np_cov_def ndim_def Let_def rows2_def squeeze_def)

lemma tc_covar_single_row_legacy:
  assumes "shape X = [1, 3]"
  shows "tc_covar Before_2_2 X = Inl IndexError"
proof -
  obtain d where "np_cov Before_2_2 X = Inr \<lparr>shape = [], data = d\<rparr>"
    using np_cov_single_row_legacy [OF assms] by auto
  then show ?thesis
    using assms by (simp add: tc_covar_def ndim_def getitem2_def)
qed

text \<open>
  Claim C1. For a two-dimensional input with three columns whose covariance matrix
  \<open>covar\<close> (the result of \<open>np.cov\<close>) has the entries \<open>covar[1,2]\<close>, \<open>covar[0,2]\<close>
  and \<open>covar[0,1]\<close>, all different from zero, \<open>tc_covar\<close> returns the vector of length 3
  whose entry for system \<open>i\<close> is the variance \<open>covar[i,i]\<close> minus the product of the two
  covariances of \<open>i\<close> with the other systems, divided by the covariance of the other two.
\<close>

theorem tc_covar_closed_form:
  assumes "shape X = [N, 3]" and "np_cov v X = Inr covar"
    and "getitem2 covar 1 2 = Inr c12" and "c12 \<noteq> Fin 0"
    and "getitem2 covar 0 2 = Inr c02" and "c02 \<noteq> Fin 0"
    and "getitem2 covar 0 1 = Inr c01" and "c01 \<noteq> Fin 0"
  shows "\<exists>c00 c11 c22.
           getitem2 covar 0 0 = Inr c00 \<and> getitem2 covar 1 1 = Inr c11 \<and>
           getitem2 covar 2 2 = Inr c22 \<and>
           tc_covar v X = Inr \<lparr>shape = [3],
             data = [c00 - c01 * c02 / c12, c11 - c01 * c12 / c02, c22 - c02 * c12 / c01]\<rparr>"
proof (cases "v = Since_2_2 \<or> N \<noteq> 1")
  case True
  have g: "getitem2 covar i j = Inr (cov_entry X i j)" if "i < 3" "j < 3" for i j
    using np_cov_getitem2 [OF assms(1) _ True assms(2)] that by simp
  have "c12 = cov_entry X 1 2" "c02 = cov_entry X 0 2" "c01 = cov_entry X 0 1"
    using assms(3,5,7) by (simp_all add: g)
  then show ?thesis
    using tc_covar_regular [OF assms(1) True] by (simp add: g)
next
  case False
  then have v: "v = Before_2_2" and N: "N = 1" by (cases v; simp)+
  obtain d where "np_cov Before_2_2 X = Inr \<lparr>shape = [], data = d\<rparr>"
    using np_cov_single_row_legacy [of X 3] assms(1) N by auto
  with assms(2) v have "covar = \<lparr>shape = [], data = d\<rparr>" by simp
  with assms(3) show ?thesis by (simp add: getitem2_def)
qed

lemma upt_3: "[0..<3] = [0, 1, 2]"
  by (simp add: upt_rec)

lemmas np_cov_eval = np_cov_def ndim_def cols2_def rows2_def centre_def np_mean_def np_dot_def
  squeeze_def minus_npfloat_def inf_of_sign_def Let_def upt_3

lemma np_cov_tc_example: "np_cov v tc_example = Inr tc_example_cov"
  by (cases v) (simp_all add: tc_example_def tc_example_cov_def np_cov_eval)

theorem tc_covar_closed_form_witness:
  "shape tc_example = [3, 3] \<and> np_cov Since_2_2 tc_example = Inr tc_example_cov \<and>
   getitem2 tc_example_cov 1 2 = Inr (Fin (- (1 / 2))) \<and> Fin (- (1 / 2)) \<noteq> Fin 0 \<and>
   getitem2 tc_example_cov 0 2 = Inr (Fin (1 / 2)) \<and> Fin (1 / 2) \<noteq> Fin 0 \<and>
   getitem2 tc_example_cov 0 1 = Inr (Fin 1) \<and> Fin 1 \<noteq> Fin 0 \<and>
   tc_covar Since_2_2 tc_example = Inr \<lparr>shape = [3], data = [Fin (10 / 3), Fin 2, Fin (5 / 4)]\<rparr>"
proof -
  have h1: "shape tc_example = [3, 3]" by (simp add: tc_example_def)
  have h2: "np_cov Since_2_2 tc_example = Inr tc_example_cov" by (rule np_cov_tc_example)
  have h3: "getitem2 tc_example_cov 1 2 = Inr (Fin (- (1 / 2)))"
    by (simp add: tc_example_cov_def getitem2_def)
  have h4: "Fin (- (1 / 2)) \<noteq> Fin 0" by simp
  have h5: "getitem2 tc_example_cov 0 2 = Inr (Fin (1 / 2))"
    by (simp add: tc_example_cov_def getitem2_def)
  have h6: "Fin (1 / 2) \<noteq> Fin 0" by simp
  have h7: "getitem2 tc_example_cov 0 1 = Inr (Fin 1)"
    by (simp add: tc_example_cov_def getitem2_def)
  have h8: "Fin 1 \<noteq> Fin 0" by simp
  have d: "getitem2 tc_example_cov 0 0 = Inr (Fin (7 / 3))"
    "getitem2 tc_example_cov 1 1 = Inr (Fin 1)" "getitem2 tc_example_cov 2 2 = Inr (Fin 1)"
    by (simp_all add: tc_example_cov_def getitem2_def)
  from tc_covar_closed_form [OF h1 h2 h3 h4 h5 h6 h7 h8]
  obtain c00 c11 c22 where
    c: "getitem2 tc_example_cov 0 0 = Inr c00" "getitem2 tc_example_cov 1 1 = Inr c11"
       "getitem2 tc_example_cov 2 2 = Inr c22"
    and r: "tc_covar Since_2_2 tc_example = Inr \<lparr>shape = [3],
         data = [c00 - Fin 1 * Fin (1 / 2) / Fin (- (1 / 2)),
                 c11 - Fin 1 * Fin (- (1 / 2)) / Fin (1 / 2),
                 c22 - Fin (1 / 2) * Fin (- (1 / 2)) / Fin 1]\<rparr>"
    by blast
  from c d have "c00 = Fin (7 / 3)" "c11 = Fin 1" "c22 = Fin 1" by simp_all
  with r have "tc_covar Since_2_2 tc_example =
          Inr \<lparr>shape = [3], data = [Fin (10 / 3), Fin 2, Fin (5 / 4)]\<rparr>"
    by (simp add: minus_npfloat_def)
  with h1 h2 h3 h4 h5 h6 h7 h8 show ?thesis by simp
qed

lemma tc_covar_two_dim:
  assumes "ndim X = 2" and "shape X ! 1 = 3"
  shows "\<exists>N. shape X = [N, 3]"
proof -
  from assms(1) obtain a b where "shape X = [a, b]"
    by (cases "shape X"; simp add: ndim_def; case_tac list; simp)
  with assms(2) show ?thesis by simp
qed

lemma tc_covar_no_ValueError:
  assumes "shape X = [N, 3]"
  shows "tc_covar v X \<noteq> Inl (ValueError msg)"
proof (cases "v = Since_2_2 \<or> N \<noteq> 1")
  case True
  from tc_covar_regular [OF assms True] show ?thesis by simp
next
  case False
  then have "v = Before_2_2" "N = 1" by (cases v; simp)+
  with tc_covar_single_row_legacy [of X] assms show ?thesis by simp
qed

text \<open>
  Claim C2. \<open>tc_covar\<close> raises ValueError exactly when the input is not two-dimensional
  or its second axis does not have length 3; the message names the violated constraint
  and the offending number. An input of shape \<open>(N, 3)\<close> raises no ValueError, whatever
  \<open>N\<close> is; an input with more than three columns does.
\<close>

theorem tc_covar_shape_errors:
  "(ndim X \<noteq> 2 \<longrightarrow> tc_covar v X = Inl (ValueError (ndim_message (ndim X)))) \<and>
   (ndim X = 2 \<and> shape X ! 1 \<noteq> 3 \<longrightarrow>
      tc_covar v X = Inl (ValueError (trailing_message (shape X ! 1)))) \<and>
   (ndim X = 2 \<and> shape X ! 1 = 3 \<longrightarrow> (\<forall>msg. tc_covar v X \<noteq> Inl (ValueError msg))) \<and>
   ((\<exists>msg. tc_covar v X = Inl (ValueError msg)) \<longleftrightarrow> ndim X \<noteq> 2 \<or> shape X ! 1 \<noteq> 3)"
proof -
  have a: "tc_covar v X = Inl (ValueError (ndim_message (ndim X)))" if "ndim X \<noteq> 2"
    using that by (simp add: tc_covar_def ndim_message_def)
  have b: "tc_covar v X = Inl (ValueError (trailing_message (shape X ! 1)))"
    if "ndim X = 2" "shape X ! 1 \<noteq> 3"
    using that by (simp add: tc_covar_def trailing_message_def)
  have c: "tc_covar v X \<noteq> Inl (ValueError msg)" if "ndim X = 2" "shape X ! 1 = 3" for msg
    using tc_covar_two_dim [OF that] tc_covar_no_ValueError by blast
  show ?thesis
    using a b c by blast
qed

lemma str_nat_digit: "n < 10 \<Longrightarrow> str_nat n = [''0123456789'' ! n]"
  by (simp add: str_nat.simps)

theorem tc_covar_shape_errors_witness:
  "ndim \<lparr>shape = [3], data = map Fin [1, 2, 3]\<rparr> \<noteq> 2 \<and>
   tc_covar Since_2_2 \<lparr>shape = [3], data = map Fin [1, 2, 3]\<rparr> =
     Inl (ValueError ''X must be a 2D array input. Current number of dimensions: 1'') \<and>
   ndim \<lparr>shape = [2, 4], data = map Fin [1, 2, 3, 4, 5, 6, 7, 8]\<rparr> = 2 \<and>
   shape \<lparr>shape = [2, 4], data = map Fin [1, 2, 3, 4, 5, 6, 7, 8]\<rparr> ! 1 \<noteq> 3 \<and>
   tc_covar Since_2_2 \<lparr>shape = [2, 4], data = map Fin [1, 2, 3, 4, 5, 6, 7, 8]\<rparr> =
     Inl (ValueError
       ''X must have a trailing dimension of length 3.Current trailing dimension length: 4'') \<and>
   ndim tc_example = 2 \<and> shape tc_example ! 1 = 3 \<and>
   (\<forall>msg. tc_covar Since_2_2 tc_example \<noteq> Inl (ValueError msg))"
  using tc_covar_shape_errors [of "\<lparr>shape = [3], data = map Fin [1, 2, 3]\<rparr>" Since_2_2]
    tc_covar_shape_errors [of "\<lparr>shape = [2, 4], data = map Fin [1, 2, 3, 4, 5, 6, 7, 8]\<rparr>" Since_2_2]
    tc_covar_shape_errors [of tc_example Since_2_2]
  by (simp add: ndim_def tc_example_def ndim_message_def trailing_message_def str_nat_digit)

lemma flat_index_less: "n < N \<Longrightarrow> i < M \<Longrightarrow> n * M + i < N * (M::nat)"
proof -
  assume a: "n < N" "i < M"
  then have "n * M + i < Suc n * M" by simp
  also have "\<dots> \<le> N * M" using a(1) by (intro mult_le_mono1) simp
  finally show ?thesis .
qed

lemma fl_times_commute: "a * b = b * (a::npfloat)"
  by (cases a; cases b) (simp_all add: mult.commute)

lemma np_dot_commute: "np_dot xs ys = np_dot ys xs"
proof (induction xs arbitrary: ys)
  case Nil
  then show ?case by (simp add: np_dot_def)
next
  case (Cons x xs)
  then show ?case
    by (cases ys) (simp_all add: np_dot_def fl_times_commute)
qed

lemma cov_entry_commute: "cov_entry X i j = cov_entry X j i"
  by (simp add: cov_entry_def np_dot_commute)






lemma not_finite_div_zero: "\<not> is_finite (a - b / Fin 0)"
  by (cases a; cases b) (simp_all add: minus_npfloat_def inf_of_sign_def)

text \<open>
  Claim C4. When an off-diagonal entry of the covariance matrix that serves as a
  denominator is zero, \<open>tc_covar\<close> raises nothing and returns its vector; the entry of
  the vector that divides by it is not finite (an infinity or NaN), so it is not zero.
\<close>

theorem tc_covar_zero_denominator:
  assumes "shape X = [N, 3]" and "np_cov v X = Inr covar"
  shows "(getitem2 covar 1 2 = Inr (Fin 0) \<longrightarrow>
            (\<exists>d. tc_covar v X = Inr \<lparr>shape = [3], data = d\<rparr> \<and> length d = 3 \<and>
                 \<not> is_finite (d ! 0))) \<and>
         (getitem2 covar 0 2 = Inr (Fin 0) \<longrightarrow>
            (\<exists>d. tc_covar v X = Inr \<lparr>shape = [3], data = d\<rparr> \<and> length d = 3 \<and>
                 \<not> is_finite (d ! 1))) \<and>
         (getitem2 covar 0 1 = Inr (Fin 0) \<longrightarrow>
            (\<exists>d. tc_covar v X = Inr \<lparr>shape = [3], data = d\<rparr> \<and> length d = 3 \<and>
                 \<not> is_finite (d ! 2)))"
proof (cases "v = Since_2_2 \<or> N \<noteq> 1")
  case True
  have g: "getitem2 covar i j = Inr (cov_entry X i j)" if "i < 3" "j < 3" for i j
    using np_cov_getitem2 [OF assms(1) _ True assms(2)] that by simp
  note r = tc_covar_regular [OF assms(1) True]
  have "\<exists>d. tc_covar v X = Inr \<lparr>shape = [3], data = d\<rparr> \<and> length d = 3 \<and> \<not> is_finite (d ! 0)"
    if "getitem2 covar 1 2 = Inr (Fin 0)"
  proof -
    from that have "cov_entry X 1 2 = Fin 0" by (simp add: g)
    then show ?thesis by (simp add: r not_finite_div_zero)
  qed
  moreover
  have "\<exists>d. tc_covar v X = Inr \<lparr>shape = [3], data = d\<rparr> \<and> length d = 3 \<and> \<not> is_finite (d ! 1)"
    if "getitem2 covar 0 2 = Inr (Fin 0)"
  proof -
    from that have "cov_entry X 0 2 = Fin 0" by (simp add: g)
    then show ?thesis by (simp add: r not_finite_div_zero)
  qed
  moreover
  have "\<exists>d. tc_covar v X = Inr \<lparr>shape = [3], data = d\<rparr> \<and> length d = 3 \<and> \<not> is_finite (d ! 2)"
    if "getitem2 covar 0 1 = Inr (Fin 0)"
  proof -
    from that have "cov_entry X 0 1 = Fin 0" by (simp add: g)
    then show ?thesis by (simp add: r not_finite_div_zero)
  qed
  ultimately show ?thesis by blast
next
  case False
  then have v: "v = Before_2_2" and N: "N = 1" by (cases v; simp)+
  obtain d where "np_cov Before_2_2 X = Inr \<lparr>shape = [], data = d\<rparr>"
    using np_cov_single_row_legacy [of X 3] assms(1) N by auto
  with assms(2) v have "covar = \<lparr>shape = [], data = d\<rparr>" by simp
  then show ?thesis by (simp add: getitem2_def)
qed

theorem tc_covar_zero_denominator_witness:
  "shape zero_cov_example = [3, 3] \<and>
   (\<exists>covar. np_cov Since_2_2 zero_cov_example = Inr covar \<and> getitem2 covar 1 2 = Inr (Fin 0)) \<and>
   (\<exists>d. tc_covar Since_2_2 zero_cov_example = Inr \<lparr>shape = [3], data = d\<rparr> \<and> length d = 3 \<and>
        \<not> is_finite (d ! 0)) \<and>
   tc_covar Since_2_2 zero_cov_example = Inr \<lparr>shape = [3], data = [NInf, Fin (1 / 3), Fin 1]\<rparr>"
proof -
  let ?C = "\<lparr>shape = [3, 3],
      data = map Fin [7 / 3, - (1 / 6), - (3 / 2), - (1 / 6), 1 / 3, 0, - (3 / 2), 0, 1]\<rparr>"
  have h1: "shape zero_cov_example = [3, 3]" by (simp add: zero_cov_example_def)
  have h2: "np_cov Since_2_2 zero_cov_example = Inr ?C"
    by (simp add: zero_cov_example_def np_cov_eval)
  have h3: "getitem2 ?C 1 2 = Inr (Fin 0)" by (simp add: getitem2_def)
  have e: "tc_covar Since_2_2 zero_cov_example = Inr \<lparr>shape = [3], data = [NInf, Fin (1 / 3), Fin 1]\<rparr>"
    by (simp add: tc_covar_def h1 h2 getitem2_def ndim_def minus_npfloat_def inf_of_sign_def)
  from tc_covar_zero_denominator [OF h1 h2] h3
  have "\<exists>d. tc_covar Since_2_2 zero_cov_example = Inr \<lparr>shape = [3], data = d\<rparr> \<and> length d = 3 \<and>
        \<not> is_finite (d ! 0)"
    by blast
  with h1 h2 h3 e show ?thesis by blast
qed

lemma upt_4: "[0..<4] = [0, 1, 2, 3]"
  by (simp add: upt_rec)

lemma np_cov_negative_example: "np_cov v negative_example = Inr negative_example_cov"
  by (cases v) (simp_all add: negative_example_def negative_example_cov_def np_cov_eval)

text \<open>
  Claim C5. Let \<open>covar\<close> be the covariance matrix that \<open>np.cov\<close> computes from an input
  of three columns, and for a system \<open>i\<close> let \<open>j\<close> and \<open>k\<close> be the other two systems in
  cyclic order. When the value \<open>covar[i,i] - covar[i,j] * covar[i,k] / covar[j,k]\<close> is
  a finite negative number, \<open>tc_covar\<close> raises nothing and entry \<open>i\<close> of its result is
  that very number: it is not replaced by zero or by anything else. (A value that is a
  finite number has a non-zero denominator \<open>covar[j,k]\<close>; nothing is required of the
  other two denominators.)
\<close>

theorem tc_covar_negative_estimate:
  assumes "shape X = [N, 3]" and "np_cov v X = Inr covar" and "i < 3"
    and "getitem2 covar i i = Inr cii"
    and "getitem2 covar i ((i + 1) mod 3) = Inr cij"
    and "getitem2 covar i ((i + 2) mod 3) = Inr cik"
    and "getitem2 covar ((i + 1) mod 3) ((i + 2) mod 3) = Inr cjk"
    and "cii - cij * cik / cjk = Fin r" and "r < 0"
  shows "\<exists>d. tc_covar v X = Inr \<lparr>shape = [3], data = d\<rparr> \<and> length d = 3 \<and>
             d ! i = Fin r \<and> d ! i \<noteq> Fin 0"
proof (cases "v = Since_2_2 \<or> N \<noteq> 1")
  case True
  have g: "getitem2 covar a b = Inr (cov_entry X a b)" if "a < 3" "b < 3" for a b
    using np_cov_getitem2 [OF assms(1) _ True assms(2)] that by simp
  have m: "(0 + 1) mod 3 = (1::nat)" "(0 + 2) mod 3 = (2::nat)" "(1 + 1) mod 3 = (2::nat)"
    "(1 + 2) mod 3 = (0::nat)" "(2 + 1) mod 3 = (0::nat)" "(2 + 2) mod 3 = (1::nat)"
    by simp_all
  have s: "cov_entry X 1 0 = cov_entry X 0 1" "cov_entry X 2 0 = cov_entry X 0 2"
    "cov_entry X 2 1 = cov_entry X 1 2"
    by (rule cov_entry_commute)+
  let ?d = "[cov_entry X 0 0 - cov_entry X 0 1 * cov_entry X 0 2 / cov_entry X 1 2,
             cov_entry X 1 1 - cov_entry X 0 1 * cov_entry X 1 2 / cov_entry X 0 2,
             cov_entry X 2 2 - cov_entry X 0 2 * cov_entry X 1 2 / cov_entry X 0 1]"
  have r: "tc_covar v X = Inr \<lparr>shape = [3], data = ?d\<rparr>"
    by (rule tc_covar_regular [OF assms(1) True])
  have m0: "?d ! 0 = cov_entry X 0 0 - cov_entry X 0 1 * cov_entry X 0 2 / cov_entry X 1 2"
    and m1: "?d ! 1 = cov_entry X 1 1 - cov_entry X 0 1 * cov_entry X 1 2 / cov_entry X 0 2"
    and m2: "?d ! 2 = cov_entry X 2 2 - cov_entry X 0 2 * cov_entry X 1 2 / cov_entry X 0 1"
    by simp_all
  from assms(3) consider "i = 0" | "i = 1" | "i = 2" by linarith
  then have "?d ! i = Fin r"
  proof cases
    case 1
    have c: "cii = cov_entry X 0 0" "cij = cov_entry X 0 1" "cik = cov_entry X 0 2"
      "cjk = cov_entry X 1 2"
      using assms(4-7) unfolding 1 m by (simp_all add: g)
    from assms(8) show ?thesis
      unfolding 1 m0 c .
  next
    case 2
    have c: "cii = cov_entry X 1 1" "cij = cov_entry X 1 2" "cik = cov_entry X 1 0"
      "cjk = cov_entry X 2 0"
      using assms(4-7) unfolding 2 m by (simp_all add: g)
    from assms(8) show ?thesis
      unfolding 2 m1 c s fl_times_commute [of "cov_entry X 1 2" "cov_entry X 0 1"] .
  next
    case 3
    have c: "cii = cov_entry X 2 2" "cij = cov_entry X 2 0" "cik = cov_entry X 2 1"
      "cjk = cov_entry X 0 1"
      using assms(4-7) unfolding 3 m by (simp_all add: g)
    from assms(8) show ?thesis
      unfolding 3 m2 c s .
  qed
  with r assms(9) show ?thesis by simp
next
  case False
  then have v: "v = Before_2_2" and N: "N = 1" by (cases v; simp)+
  obtain d where "np_cov Before_2_2 X = Inr \<lparr>shape = [], data = d\<rparr>"
    using np_cov_single_row_legacy [of X 3] assms(1) N by auto
  with assms(2) v have "covar = \<lparr>shape = [], data = d\<rparr>" by simp
  with assms(4) show ?thesis by (simp add: getitem2_def)
qed

theorem tc_covar_negative_estimate_witness:
  "shape negative_example = [3, 3] \<and>
   np_cov Since_2_2 negative_example = Inr negative_example_cov \<and> (0::nat) < 3 \<and>
   getitem2 negative_example_cov 0 0 = Inr (Fin 3) \<and>
   getitem2 negative_example_cov 0 ((0 + 1) mod 3) = Inr (Fin (- 3)) \<and>
   getitem2 negative_example_cov 0 ((0 + 2) mod 3) = Inr (Fin 3) \<and>
   getitem2 negative_example_cov ((0 + 1) mod 3) ((0 + 2) mod 3) = Inr (Fin (- 1)) \<and>
   Fin 3 - Fin (- 3) * Fin 3 / Fin (- 1) = Fin (- 6) \<and> (- 6::real) < 0 \<and>
   (\<exists>d. tc_covar Since_2_2 negative_example = Inr \<lparr>shape = [3], data = d\<rparr> \<and> length d = 3 \<and>
        d ! 0 = Fin (- 6) \<and> d ! 0 \<noteq> Fin 0) \<and>
   tc_covar Since_2_2 negative_example = Inr \<lparr>shape = [3], data = [Fin (- 6), Fin 3, Fin 6]\<rparr>"
proof -
  have h1: "shape negative_example = [3, 3]" by (simp add: negative_example_def)
  have h2: "np_cov Since_2_2 negative_example = Inr negative_example_cov"
    by (rule np_cov_negative_example)
  have h3: "(0::nat) < 3" by simp
  have h4: "getitem2 negative_example_cov 0 0 = Inr (Fin 3)"
    by (simp add: negative_example_cov_def getitem2_def)
  have h5: "getitem2 negative_example_cov 0 ((0 + 1) mod 3) = Inr (Fin (- 3))"
    by (simp add: negative_example_cov_def getitem2_def)
  have h6: "getitem2 negative_example_cov 0 ((0 + 2) mod 3) = Inr (Fin 3)"
    by (simp add: negative_example_cov_def getitem2_def)
  have h7: "getitem2 negative_example_cov ((0 + 1) mod 3) ((0 + 2) mod 3) = Inr (Fin (- 1))"
    by (simp add: negative_example_cov_def getitem2_def)
  have h8: "Fin 3 - Fin (- 3) * Fin 3 / Fin (- 1) = Fin (- 6)"
    by (simp add: minus_npfloat_def)
  have h9: "(- 6::real) < 0" by simp
  have e: "tc_covar Since_2_2 negative_example =
      Inr \<lparr>shape = [3], data = [Fin (- 6), Fin 3, Fin 6]\<rparr>"
    by (simp add: tc_covar_def h1 h2 negative_example_cov_def getitem2_def ndim_def
        minus_npfloat_def)
  note t = tc_covar_negative_estimate [OF h1 h2 h3 h4 h5 h6 h7 h8 h9]
  from h1 h2 h3 h4 h5 h6 h7 h8 h9 t e show ?thesis by blast
qed

lemma single_obs_centre: "\<exists>c. centre [x] = [c] \<and> (c = Fin 0 \<or> c = NaN)"
  by (cases x) (simp_all add: centre_def np_mean_def minus_npfloat_def)

lemma single_obs_dot:
  assumes "a = Fin 0 \<or> a = NaN" and "b = Fin 0 \<or> b = NaN"
  shows "np_dot [a] [b] * (Fin 1 / Fin 0) = NaN"
  using assms by (auto simp add: np_dot_def inf_of_sign_def)

lemma cov_entry_single_row:
  assumes "shape X = [1, M]"
  shows "cov_entry X i j = NaN"
proof -
  obtain a where a: "centre (column X i) = [a]" "a = Fin 0 \<or> a = NaN"
    using single_obs_centre [of "data X ! i"] assms by (auto simp add: column_def)
  obtain b where b: "centre (column X j) = [b]" "b = Fin 0 \<or> b = NaN"
    using single_obs_centre [of "data X ! j"] assms by (auto simp add: column_def)
  show ?thesis
    using single_obs_dot [OF a(2) b(2)] assms by (simp add: cov_entry_def a b fact_of_def)
qed

text \<open>
  Claim C10 as it is worded does not hold for numpy before version 2.2: \<open>np.cov\<close>
  leaves an array of one row as it is, so it sees one variable with three observations
  and returns a scalar; \<open>covar[0, 0]\<close> then raises IndexError and no vector is
  returned.
\<close>

theorem tc_covar_one_row_index_error:
  "tc_covar Before_2_2 single_row_example = Inl IndexError"
  by (rule tc_covar_single_row_legacy) (simp add: single_row_example_def)

text \<open>
  Claim C10, amended. The number of rows is not checked: an input of one row and three
  columns passes both shape checks, so no ValueError is raised for it. With numpy
  before version 2.2 \<open>np.cov\<close> returns a scalar for it and \<open>tc_covar\<close> raises
  IndexError. With numpy since version 2.2 the normalisation \<open>N - 1\<close> is zero, every
  entry of the covariance matrix is NaN, and \<open>tc_covar\<close> returns a vector of three
  NaN.
\<close>

theorem tc_covar_one_row:
  assumes "shape X = [1, 3]"
  shows "(\<forall>msg. tc_covar v X \<noteq> Inl (ValueError msg)) \<and>
         (\<exists>d. np_cov Before_2_2 X = Inr \<lparr>shape = [], data = d\<rparr>) \<and>
         tc_covar Before_2_2 X = Inl IndexError \<and>
         (\<exists>C. np_cov Since_2_2 X = Inr C \<and> shape C = [3, 3] \<and>
              getitem2 C 0 0 = Inr NaN \<and> getitem2 C 0 1 = Inr NaN \<and>
              getitem2 C 0 2 = Inr NaN \<and> getitem2 C 1 1 = Inr NaN \<and>
              getitem2 C 1 2 = Inr NaN \<and> getitem2 C 2 2 = Inr NaN) \<and>
         tc_covar Since_2_2 X = Inr \<lparr>shape = [3], data = [NaN, NaN, NaN]\<rparr>"
proof -
  have a: "\<exists>d. np_cov Before_2_2 X = Inr \<lparr>shape = [], data = d\<rparr>"
    using np_cov_single_row_legacy [of X 3] assms by simp
  have b: "tc_covar Before_2_2 X = Inl IndexError"
    by (rule tc_covar_single_row_legacy [OF assms])
  obtain C where C: "np_cov Since_2_2 X = Inr C"
    using np_cov_columns [OF assms, of Since_2_2] by simp
  have sh: "shape C = [3, 3]"
    using np_cov_columns [OF assms, of Since_2_2] C by (simp add: squeeze_def)
  have g: "getitem2 C i j = Inr NaN" if "i < 3" "j < 3" for i j
    using np_cov_getitem2 [OF assms _ _ C that] by (simp add: cov_entry_single_row [OF assms])
  have c: "tc_covar Since_2_2 X = Inr \<lparr>shape = [3], data = [NaN, NaN, NaN]\<rparr>"
    using tc_covar_regular [OF assms, of Since_2_2]
    by (simp add: cov_entry_single_row [OF assms] minus_npfloat_def)
  show ?thesis
    using tc_covar_no_ValueError [OF assms] a b C sh c by (simp add: g)
qed

theorem tc_covar_one_row_witness:
  "shape single_row_example = [1, 3] \<and>
   (\<forall>msg. tc_covar Since_2_2 single_row_example \<noteq> Inl (ValueError msg)) \<and>
   (\<forall>msg. tc_covar Before_2_2 single_row_example \<noteq> Inl (ValueError msg)) \<and>
   tc_covar Before_2_2 single_row_example = Inl IndexError \<and>
   tc_covar Since_2_2 single_row_example = Inr \<lparr>shape = [3], data = [NaN, NaN, NaN]\<rparr>"
proof -
  have h: "shape single_row_example = [1, 3]" by (simp add: single_row_example_def)
  from tc_covar_one_row [OF h, of Since_2_2] tc_covar_one_row [OF h, of Before_2_2] h
  show ?thesis by simp
qed


lemmas tc_covar_eval = tc_covar_def getitem2_def np_cov_eval upt_4

lemma generate_sample_needs_five:
  assumes "nsamples < 5"
  shows "\<exists>e. generate_sample nsamples sigma alpha beta uniform normal = Inl e"
  using assms by (simp add: generate_sample_def)














lemma np_cov_three:
  assumes "shape X = [N, 3]" and "v = Since_2_2 \<or> N \<noteq> 1"
  shows "\<exists>C. np_cov v X = Inr C \<and> shape C = [3, 3] \<and>
             (\<forall>i<3. \<forall>j<3. data C ! (i * 3 + j) = cov_entry X i j)"
proof -
  obtain C where C: "np_cov v X = Inr C"
    using np_cov_columns [OF assms(1) _ assms(2)] by simp
  have sh: "shape C = [3, 3]"
    using np_cov_columns [OF assms(1) _ assms(2)] C by (auto simp add: squeeze_def)
  have "data C ! (i * 3 + j) = cov_entry X i j" if "i < 3" "j < 3" for i j
    using np_cov_getitem2 [OF assms(1) _ assms(2) C that] that sh
    by (simp add: getitem2_def)
  with C sh show ?thesis by blast
qed

lemma tc_entry_helpers:
  assumes "i < 3" and "k < 3" and "l < 3" and "k \<noteq> i" and "l \<noteq> i" and "k \<noteq> l"
  shows "cov_entry X i i - cov_entry X i k * cov_entry X i l / cov_entry X k l
         = [cov_entry X 0 0 - cov_entry X 0 1 * cov_entry X 0 2 / cov_entry X 1 2,
            cov_entry X 1 1 - cov_entry X 0 1 * cov_entry X 1 2 / cov_entry X 0 2,
            cov_entry X 2 2 - cov_entry X 0 2 * cov_entry X 1 2 / cov_entry X 0 1] ! i"
proof -
  have s: "cov_entry X 1 0 = cov_entry X 0 1" "cov_entry X 2 0 = cov_entry X 0 2"
    "cov_entry X 2 1 = cov_entry X 1 2"
    by (rule cov_entry_commute)+
  have c: "cov_entry X 0 2 * cov_entry X 0 1 = cov_entry X 0 1 * cov_entry X 0 2"
    "cov_entry X 1 2 * cov_entry X 0 1 = cov_entry X 0 1 * cov_entry X 1 2"
    "cov_entry X 1 2 * cov_entry X 0 2 = cov_entry X 0 2 * cov_entry X 1 2"
    by (rule fl_times_commute)+
  have n: "[a, b, d] ! 0 = a" "[a, b, d] ! 1 = b" "[a, b, d] ! 2 = d" for a b d :: npfloat
    by simp_all
  have i: "i = 0 \<or> i = 1 \<or> i = 2" and k: "k = 0 \<or> k = 1 \<or> k = 2"
    and l: "l = 0 \<or> l = 1 \<or> l = 2"
    using assms(1,2,3) by arith+
  consider "i = 0" "k = 1" "l = 2" | "i = 0" "k = 2" "l = 1" | "i = 1" "k = 0" "l = 2"
    | "i = 1" "k = 2" "l = 0" | "i = 2" "k = 0" "l = 1" | "i = 2" "k = 1" "l = 0"
    using i k l assms(4,5,6) by blast
  then show ?thesis
  proof cases
    case 1
    then show ?thesis by (simp only: n)
  next
    case 2
    then show ?thesis by (simp only: n s c)
  next
    case 3
    then show ?thesis by (simp only: n s c)
  next
    case 4
    then show ?thesis by (simp only: n s c)
  next
    case 5
    then show ?thesis by (simp only: n s c)
  next
    case 6
    then show ?thesis by (simp only: n s c)
  qed
qed

lemma distinct_three_remdups: "distinct cs \<Longrightarrow> length cs = 3 \<Longrightarrow> \<not> length (remdups cs) < 3"
  by (simp add: distinct_remdups_id)

lemma ec_covar_three:
  assumes "shape X = [N, 3]" and "length corr_sets = 3" and "distinct corr_sets"
    and "np_cov v X = Inr C" and "shape C = [3, 3]"
  shows "ec_covar v pick X corr_sets = Inr \<lparr>shape = [3, 3],
           data = concat (map (\<lambda>i. map (\<lambda>j. ec_entry C 3 i j (pick corr_sets i j)) [0..<3])
                     [0..<3])\<rparr>"
  using assms distinct_three_remdups [OF assms(3,2)]
  by (simp add: ec_covar_def ec_preconditions_def ndim_def)

lemma valid_helpers_distinct:
  assumes "distinct corr_sets" and "length corr_sets = 3" and "i < 3"
    and "valid_helpers corr_sets i i (k, l)"
  shows "k < 3 \<and> l < 3 \<and> k \<noteq> i \<and> l \<noteq> i \<and> k \<noteq> l"
  using assms by (auto simp add: valid_helpers_def)

text \<open>
  Claim C6. For an input of three columns and a grouping that gives the three systems
  three different labels, the diagonal of the matrix that \<open>ec_covar\<close> returns is, entry
  for entry, the vector that \<open>tc_covar\<close> returns on the same input, whichever valid
  helper systems the EC solver selects; where \<open>tc_covar\<close> raises, \<open>ec_covar\<close> raises the
  same error.
\<close>

theorem ec_covar_singleton_diagonal:
  assumes "shape X = [N, 3]" and "length corr_sets = 3" and "distinct corr_sets"
    and "\<forall>i<3. valid_helpers corr_sets i i (pick corr_sets i i)"
  shows "(\<forall>T. tc_covar v X = Inr T \<longrightarrow>
            (\<exists>C. ec_covar v pick X corr_sets = Inr C \<and> shape C = [3, 3] \<and>
                 (\<forall>i<3. getitem2 C i i = Inr (data T ! i)))) \<and>
         (\<forall>e. tc_covar v X = Inl e \<longrightarrow> ec_covar v pick X corr_sets = Inl e)"
proof (cases "v = Since_2_2 \<or> N \<noteq> 1")
  case True
  obtain C0 where C0: "np_cov v X = Inr C0" "shape C0 = [3, 3]"
    and d: "\<And>i j. i < 3 \<Longrightarrow> j < 3 \<Longrightarrow> data C0 ! (i * 3 + j) = cov_entry X i j"
    using np_cov_three [OF assms(1) True] by blast
  let ?t = "[cov_entry X 0 0 - cov_entry X 0 1 * cov_entry X 0 2 / cov_entry X 1 2,
             cov_entry X 1 1 - cov_entry X 0 1 * cov_entry X 1 2 / cov_entry X 0 2,
             cov_entry X 2 2 - cov_entry X 0 2 * cov_entry X 1 2 / cov_entry X 0 1]"
  let ?C = "\<lparr>shape = [3, 3],
      data = concat (map (\<lambda>i. map (\<lambda>j. ec_entry C0 3 i j (pick corr_sets i j)) [0..<3]) [0..<3])\<rparr>"
  have tc: "tc_covar v X = Inr \<lparr>shape = [3], data = ?t\<rparr>"
    by (rule tc_covar_regular [OF assms(1) True])
  have ec: "ec_covar v pick X corr_sets = Inr ?C"
    by (rule ec_covar_three [OF assms(1,2,3) C0])
  have diag: "getitem2 ?C i i = Inr (?t ! i)" if "i < 3" for i
  proof -
    obtain k l where kl: "pick corr_sets i i = (k, l)" by (cases "pick corr_sets i i")
    with assms(4) that have "valid_helpers corr_sets i i (k, l)" by auto
    from valid_helpers_distinct [OF assms(3,2) that this]
    have h: "k < 3" "l < 3" "k \<noteq> i" "l \<noteq> i" "k \<noteq> l" by simp_all
    have "concat (map (\<lambda>i. map (\<lambda>j. ec_entry C0 3 i j (pick corr_sets i j)) [0..<3]) [0..<3])
            ! (i * length [0..<3] + i)
          = ec_entry C0 3 ([0..<3] ! i) ([0..<3] ! i) (pick corr_sets ([0..<3] ! i) ([0..<3] ! i))"
      using that by (intro concat_rows_nth) simp_all
    then have "getitem2 ?C i i = Inr (ec_entry C0 3 i i (k, l))"
      using that by (simp add: getitem2_def kl)
    also have "ec_entry C0 3 i i (k, l)
        = cov_entry X i i - cov_entry X i k * cov_entry X i l / cov_entry X k l"
      by (simp only: ec_entry_def prod.case d [OF that that] d [OF that h(1)] d [OF that h(2)]
          d [OF h(1) h(2)])
    also have "\<dots> = ?t ! i"
      by (rule tc_entry_helpers [OF that h])
    finally show ?thesis .
  qed
  show ?thesis
    using tc ec diag by auto
next
  case False
  then have v: "v = Before_2_2" and N: "N = 1" by (cases v; simp)+
  obtain d where c: "np_cov Before_2_2 X = Inr \<lparr>shape = [], data = d\<rparr>"
    using np_cov_single_row_legacy [of X 3] assms(1) N by auto
  have "ec_covar v pick X corr_sets = Inl IndexError"
    using assms(1,2) distinct_three_remdups [OF assms(3,2)] c v
    by (simp add: ec_covar_def ec_preconditions_def ndim_def)
  moreover have "tc_covar v X = Inl IndexError"
    using tc_covar_single_row_legacy [of X] assms(1) v N by simp
  ultimately show ?thesis by simp
qed

lemma first_helpers_singletons:
  "first_helpers [0, 1, 2] 0 0 = (1, 2)" "first_helpers [0, 1, 2] 1 1 = (0, 2)"
  "first_helpers [0, 1, 2] 2 2 = (0, 1)"
  by (simp_all add: first_helpers_def valid_helpers_def upt_3)

theorem ec_covar_singleton_diagonal_witness:
  "shape tc_example = [3, 3] \<and> length [0, 1, 2 :: nat] = 3 \<and> distinct [0, 1, 2 :: nat] \<and>
   valid_helpers [0, 1, 2] 0 0 (first_helpers [0, 1, 2] 0 0) \<and>
   valid_helpers [0, 1, 2] 1 1 (first_helpers [0, 1, 2] 1 1) \<and>
   valid_helpers [0, 1, 2] 2 2 (first_helpers [0, 1, 2] 2 2) \<and>
   tc_covar Since_2_2 tc_example = Inr \<lparr>shape = [3], data = [Fin (10 / 3), Fin 2, Fin (5 / 4)]\<rparr> \<and>
   (\<exists>C. ec_covar Since_2_2 first_helpers tc_example [0, 1, 2] = Inr C \<and> shape C = [3, 3] \<and>
        getitem2 C 0 0 = Inr (Fin (10 / 3)) \<and> getitem2 C 1 1 = Inr (Fin 2) \<and>
        getitem2 C 2 2 = Inr (Fin (5 / 4)))"
proof -
  have h1: "shape tc_example = [3, 3]" by (simp add: tc_example_def)
  have h2: "length [0, 1, 2 :: nat] = 3" by simp
  have h3: "distinct [0, 1, 2 :: nat]" by simp
  have h4: "\<forall>i<3. valid_helpers [0, 1, 2] i i (first_helpers [0, 1, 2] i i)"
  proof (intro allI impI)
    fix i :: nat
    assume "i < 3"
    then have "i = 0 \<or> i = 1 \<or> i = 2" by arith
    then show "valid_helpers [0, 1, 2] i i (first_helpers [0, 1, 2] i i)"
      using first_helpers_singletons by (auto simp add: valid_helpers_def)
  qed
  have tc: "tc_covar Since_2_2 tc_example
      = Inr \<lparr>shape = [3], data = [Fin (10 / 3), Fin 2, Fin (5 / 4)]\<rparr>"
    unfolding tc_example_def by (simp add: tc_covar_eval)
  from ec_covar_singleton_diagonal [where pick = first_helpers and v = Since_2_2, OF h1 h2 h3 h4] tc
  obtain C where C: "ec_covar Since_2_2 first_helpers tc_example [0, 1, 2] = Inr C" "shape C = [3, 3]"
    and g: "\<And>i. i < 3 \<Longrightarrow> getitem2 C i i
              = Inr (data \<lparr>shape = [3], data = [Fin (10 / 3), Fin 2, Fin (5 / 4)]\<rparr> ! i)"
    by blast
  have "getitem2 C 0 0 = Inr (Fin (10 / 3))" "getitem2 C 1 1 = Inr (Fin 2)"
    "getitem2 C 2 2 = Inr (Fin (5 / 4))"
    using g [of 0] g [of 1] g [of 2] by simp_all
  moreover have "valid_helpers [0, 1, 2] 0 0 (first_helpers [0, 1, 2] 0 0)"
    "valid_helpers [0, 1, 2] 1 1 (first_helpers [0, 1, 2] 1 1)"
    "valid_helpers [0, 1, 2] 2 2 (first_helpers [0, 1, 2] 2 2)"
    using h4 by simp_all
  ultimately show ?thesis using h1 h2 h3 tc C by blast
qed

lemma ravel_less:
  "length idx = length ds \<Longrightarrow> \<forall>q<length ds. idx ! q < ds ! q \<Longrightarrow> ravel ds idx < prod_list ds"
proof (induction ds arbitrary: idx)
  case Nil
  then show ?case by simp
next
  case (Cons d ds)
  from Cons.prems(1) obtain i js where idx: "idx = i # js" and len: "length js = length ds"
    by (cases idx) simp_all
  have i: "i < d" using Cons.prems(2) idx by auto
  have "\<forall>q<length ds. js ! q < ds ! q"
  proof (intro allI impI)
    fix q assume "q < length ds"
    then have "Suc q < length (d # ds)" by simp
    with Cons.prems(2) have "idx ! Suc q < (d # ds) ! Suc q" by blast
    then show "js ! q < ds ! q" using idx by simp
  qed
  with Cons.IH [OF len] have "ravel ds js < prod_list ds" by simp
  from flat_index_less [OF i this] show ?case using idx by simp
qed

lemma collect_Inr:
  "collect rs = Inr xs \<Longrightarrow> length xs = length rs \<and> (\<forall>e<length rs. rs ! e = Inr (xs ! e))"
proof (induction rs arbitrary: xs)
  case Nil
  then show ?case by simp
next
  case (Cons r rs)
  from Cons.prems obtain x ys where r: "r = Inr x" and ys: "collect rs = Inr ys" and xs: "xs = x # ys"
    by (cases r; cases "collect rs") auto
  from Cons.IH [OF ys] have l: "length ys = length rs" and n: "\<forall>e<length rs. rs ! e = Inr (ys ! e)"
    by simp_all
  show ?case
  proof (intro conjI allI impI)
    show "length xs = length (r # rs)" using l xs by simp
  next
    fix e assume "e < length (r # rs)"
    then show "(r # rs) ! e = Inr (xs ! e)"
      using r xs n by (cases e) simp_all
  qed
qed

lemma collect_Inl:
  "collect rs = Inl err \<Longrightarrow> \<exists>e<length rs. rs ! e = Inl err"
proof (induction rs)
  case Nil
  then show ?case by simp
next
  case (Cons r rs)
  show ?case
  proof (cases r)
    case (Inl a)
    with Cons.prems have "a = err" by simp
    with Inl show ?thesis by auto
  next
    case (Inr x)
    with Cons.prems have "collect rs = Inl err"
      by (cases "collect rs") simp_all
    from Cons.IH [OF this] obtain e where "e < length rs" "rs ! e = Inl err" by blast
    then have "Suc e < length (r # rs)" "(r # rs) ! Suc e = Inl err" by simp_all
    then show ?thesis by blast
  qed
qed

lemma np_cov_shape_only:
  assumes "shape A = [N, M]" and "shape B = [N, M]"
  shows "map_sum id shape (np_cov v A) = map_sum id shape (np_cov v B)"
  using assms
  by (cases v) (simp_all add: np_cov_def ndim_def Let_def cols2_def rows2_def squeeze_def)

lemma ec_covar_shape_only:
  assumes "shape A = [N, M]" and "shape B = [N, M]"
  shows "map_sum id shape (ec_covar v pick A cs) = map_sum id shape (ec_covar v pick B cs)"
proof -
  from np_cov_shape_only [OF assms, of v]
  consider (err) e where "np_cov v A = Inl e" "np_cov v B = Inl e"
    | (ok) CA CB where "np_cov v A = Inr CA" "np_cov v B = Inr CB" "shape CA = shape CB"
    by (cases "np_cov v A"; cases "np_cov v B") auto
  then show ?thesis
  proof cases
    case err
    then show ?thesis
      using assms by (simp add: ec_covar_def ndim_def split: option.splits)
  next
    case ok
    then show ?thesis
      using assms by (simp add: ec_covar_def ndim_def Let_def split: option.splits)
  qed
qed

lemma ec_covar_result:
  assumes "ec_covar v pick A cs = Inr C"
  shows "shape C = [shape A ! 1, shape A ! 1] \<and> length (data C) = shape A ! 1 * (shape A ! 1)"
proof -
  from assms obtain covar where "np_cov v A = Inr covar"
    by (cases "np_cov v A") (auto simp add: ec_covar_def split: if_splits option.splits)
  with assms show ?thesis
    by (auto simp add: ec_covar_def Let_def length_concat comp_def sum_list_triv
        split: if_splits option.splits)
qed

lemma take_slice_shape: "shape X = N # M # extra \<Longrightarrow> shape (take_slice X e) = [N, M]"
  by (simp add: take_slice_def)

text \<open>
  Claim C7. For an input of shape \<open>(N, M, \<dots>extra\<dots>)\<close> and every index \<open>idx\<close> of the
  extra axes, applying the scalar solver \<open>ec_covar\<close> to the slice of the input at \<open>idx\<close>
  gives the slice at \<open>idx\<close> of what \<open>ec_covar_multi\<close> returns (and the same error where
  the batched driver raises one); the result of the batched driver has shape
  \<open>(M, M, \<dots>extra\<dots>)\<close>. A slice of the result depends on no other slice.
\<close>

theorem ec_covar_multi_slice:
  assumes "shape X = N # M # extra" and "length idx = length extra"
    and "\<forall>q<length extra. idx ! q < extra ! q"
  shows "ec_covar v pick (take_slice X (ravel extra idx)) corr_sets
           = map_sum id (\<lambda>R. take_slice R (ravel extra idx)) (ec_covar_multi v pick X corr_sets) \<and>
         (\<forall>R. ec_covar_multi v pick X corr_sets = Inr R \<longrightarrow>
              shape R = M # M # extra \<and> wf_ndarray R)"
proof -
  define E where "E = prod_list extra"
  define e where "e = ravel extra idx"
  define f where "f = (\<lambda>e. ec_covar v pick (take_slice X e) corr_sets)"
  have e: "e < E" unfolding e_def E_def by (rule ravel_less [OF assms(2,3)])
  have sl: "shape (take_slice X e') = [N, M]" for e'
    by (rule take_slice_shape [OF assms(1)])
  have nd: "\<not> ndim X < 2" using assms(1) by (simp add: ndim_def)
  have multi: "ec_covar_multi v pick X corr_sets =
      (case ec_preconditions M corr_sets of
         Some err \<Rightarrow> Inl err
       | None \<Rightarrow> bind_err (collect (map f [0..<E]))
           (\<lambda>Cs. Inr \<lparr>shape = M # M # extra,
                    data = concat (map (\<lambda>p. map (\<lambda>e. data (Cs ! e) ! p) [0..<E]) [0..<M * M])\<rparr>))"
    using assms(1) nd by (simp add: ec_covar_multi_def E_def f_def Let_def split: option.splits)
  show ?thesis
  proof (cases "ec_preconditions M corr_sets")
    case (Some err)
    then have "f e = Inl err"
      by (simp add: f_def ec_covar_def ndim_def sl)
    then show ?thesis
      unfolding e_def [symmetric] using Some by (simp add: multi f_def)
  next
    case None
    show ?thesis
    proof (cases "collect (map f [0..<E])")
      case (Inl err)
      from collect_Inl [OF Inl] obtain e' where e': "e' < E" "f e' = Inl err" by auto
      have "map_sum id shape (f e) = map_sum id shape (f e')"
        unfolding f_def by (rule ec_covar_shape_only [OF sl sl])
      with e' have "f e = Inl err" by (cases "f e") simp_all
      then show ?thesis
        unfolding e_def [symmetric] using None Inl by (simp add: multi f_def)
    next
      case (Inr Cs)
      let ?R = "\<lparr>shape = M # M # extra,
          data = concat (map (\<lambda>p. map (\<lambda>e. data (Cs ! e) ! p) [0..<E]) [0..<M * M])\<rparr>"
      have R: "ec_covar_multi v pick X corr_sets = Inr ?R"
        using None Inr by (simp add: multi)
      from collect_Inr [OF Inr] e have fe: "f e = Inr (Cs ! e)" by simp
      from ec_covar_result [OF fe [unfolded f_def]]
      have sc: "shape (Cs ! e) = [M, M]" and lc: "length (data (Cs ! e)) = M * M"
        by (simp_all add: sl)
      have "data ?R ! (p * E + e) = data (Cs ! e) ! p" if "p < M * M" for p
      proof -
        have "concat (map (\<lambda>p. map (\<lambda>e. data (Cs ! e) ! p) [0..<E]) [0..<M * M])
                ! (p * length [0..<E] + e)
              = data (Cs ! ([0..<E] ! e)) ! ([0..<M * M] ! p)"
          using that e by (intro concat_rows_nth) simp_all
        then show ?thesis using that e by simp
      qed
      then have "map (\<lambda>p. data ?R ! (p * E + e)) [0..<M * M] = map (\<lambda>p. data (Cs ! e) ! p) [0..<M * M]"
        by (intro map_cong) simp_all
      also have "\<dots> = data (Cs ! e)"
        using lc map_nth [of "data (Cs ! e)"] by simp
      finally have "take_slice ?R e = Cs ! e"
        using sc by (simp add: take_slice_def E_def)
      moreover have "wf_ndarray ?R"
        by (simp add: wf_ndarray_def length_concat comp_def sum_list_triv E_def)
      ultimately show ?thesis
        unfolding e_def [symmetric] using R fe by (simp add: f_def)
    qed
  qed
qed

lemma upt_9: "[0..<9] = [0, 1, 2, 3, 4, 5, 6, 7, 8]"
  by (simp add: upt_rec)

lemma take_slice_batch_example:
  "take_slice batch_example 0 = tc_example" "take_slice batch_example 1 = zero_cov_example"
  by (simp_all add: take_slice_def batch_example_def tc_example_def zero_cov_example_def upt_9)

theorem ec_covar_multi_slice_witness:
  "shape batch_example = [3, 3, 2] \<and> length [1 :: nat] = length [2 :: nat] \<and>
   [1 :: nat] ! 0 < [2] ! 0 \<and> ravel [2] [1] = 1 \<and>
   take_slice batch_example 1 = zero_cov_example \<and>
   (\<exists>R. ec_covar_multi Since_2_2 first_helpers batch_example [0, 1, 2] = Inr R \<and>
        shape R = [3, 3, 2] \<and> wf_ndarray R \<and>
        ec_covar Since_2_2 first_helpers zero_cov_example [0, 1, 2] = Inr (take_slice R 1))"
proof -
  have h1: "shape batch_example = [3, 3, 2]" by (simp add: batch_example_def)
  have h2: "length [1 :: nat] = length [2 :: nat]" by simp
  have h3: "\<forall>q<length [2 :: nat]. [1 :: nat] ! q < [2] ! q" by simp
  have r: "ravel [2] [1] = 1" by simp
  obtain C0 where C0: "np_cov Since_2_2 zero_cov_example = Inr C0" "shape C0 = [3, 3]"
    using np_cov_three [of zero_cov_example 3 Since_2_2] by (auto simp add: zero_cov_example_def)
  have "shape zero_cov_example = [3, 3]" by (simp add: zero_cov_example_def)
  from ec_covar_three [OF this _ _ C0, of "[0, 1, 2]" first_helpers]
  obtain C where C: "ec_covar Since_2_2 first_helpers zero_cov_example [0, 1, 2] = Inr C"
    by simp
  from ec_covar_multi_slice [OF h1 h2 h3, of Since_2_2 first_helpers "[0, 1, 2]"]
  have e: "ec_covar Since_2_2 first_helpers zero_cov_example [0, 1, 2]
           = map_sum id (\<lambda>R. take_slice R 1)
               (ec_covar_multi Since_2_2 first_helpers batch_example [0, 1, 2])"
    and s: "\<And>R. ec_covar_multi Since_2_2 first_helpers batch_example [0, 1, 2] = Inr R \<Longrightarrow>
               shape R = [3, 3, 2] \<and> wf_ndarray R"
    by (simp_all only: r take_slice_batch_example)
  from e C obtain R where R: "ec_covar_multi Since_2_2 first_helpers batch_example [0, 1, 2] = Inr R"
    "take_slice R 1 = C"
    by (cases "ec_covar_multi Since_2_2 first_helpers batch_example [0, 1, 2]") auto
  have b: "[1 :: nat] ! 0 < [2] ! 0" by simp
  from s [OF R(1)] R C h1 h2 b r take_slice_batch_example(2) show ?thesis by blast
qed

lemma tc_covar_from_covar:
  "tc_covar v X =
     (if ndim X \<noteq> 2 then Inl (ValueError (ndim_message (ndim X)))
      else if shape X ! 1 \<noteq> 3 then Inl (ValueError (trailing_message (shape X ! 1)))
      else bind_err (np_cov v X) tc_from_covar)"
  by (simp add: tc_covar_def tc_from_covar_def [abs_def] ndim_message_def trailing_message_def)

lemma cols2_isub_avg:
  assumes "length d = r * c"
  shows "cols2 r c (isub_avg True c d (map np_mean (cols2 r c d))) = map centre (cols2 r c d)"
proof -
  have "map (\<lambda>k. d ! k - map np_mean (cols2 r c d) ! (k mod c)) [0..<r * c] ! (i * c + j)
        = d ! (i * c + j) - np_mean (map (\<lambda>n. d ! (n * c + j)) [0..<r])"
    if "i < r" "j < c" for i j
    using flat_index_less [OF that] that(2) by (simp add: cols2_def)
  then show ?thesis
    using assms by (simp add: cols2_def isub_avg_def centre_def comp_def)
qed

lemma rows2_isub_avg:
  assumes "length d = r * c"
  shows "rows2 r c (isub_avg False c d (map np_mean (rows2 r c d))) = map centre (rows2 r c d)"
proof -
  have "map (\<lambda>k. d ! k - map np_mean (rows2 r c d) ! (k div c)) [0..<r * c] ! (i * c + j)
        = d ! (i * c + j) - np_mean (map (\<lambda>n. d ! (i * c + n)) [0..<c])"
    if "i < r" "j < c" for i j
    using flat_index_less [OF that] that by (simp add: rows2_def)
  then show ?thesis
    using assms by (simp add: rows2_def isub_avg_def centre_def comp_def)
qed

lemma view_rows_isub_avg:
  assumes "length d = r * c"
  shows "view_rows t r c (isub_avg t c d (map np_mean (view_rows t r c d)))
         = map centre (view_rows t r c d)"
  using cols2_isub_avg [OF assms] rows2_isub_avg [OF assms] by (simp add: view_rows_def)

lemma padded_shape:
  assumes "\<not> 2 < length sh0"
  shows "prod_list (replicate (2 - length sh0) 1 @ sh0)
         = (replicate (2 - length sh0) 1 @ sh0) ! 0 * (replicate (2 - length sh0) 1 @ sh0) ! 1"
proof -
  from assms consider "sh0 = []" | a where "sh0 = [a]" | a b where "sh0 = [a, b]"
    by (cases sh0; simp; case_tac list; simp)
  then show ?thesis
    by cases (simp_all add: numeral_2_eq_2)
qed

lemma view_rows_if_empty:
  "((if t then cols2 r c d else rows2 r c d) = []) = ((if t then c else r) = 0)"
  by (simp add: cols2_def rows2_def)

lemma view_rows_if_length:
  "length (if t then cols2 r c d else rows2 r c d) = (if t then c else r)"
  by (simp add: cols2_def rows2_def)

lemma np_cov_geometry:
  "np_cov v m =
     (if 2 < ndim m then Inl (ValueError ''m has more than 2 dimensions'')
      else
        case cov_geometry v m of (sh, r, c, t) \<Rightarrow>
          if (if t then c else r) = 0 then Inr \<lparr>shape = [0, 0], data = []\<rparr>
          else Inr (squeeze \<lparr>shape = [if t then c else r, if t then c else r],
                 data = concat (map (\<lambda>a. map (\<lambda>b. np_dot a b * (Fin 1 / Fin (fact_of (if t then r else c))))
                                          (map centre (view_rows t r c (data m))))
                           (map centre (view_rows t r c (data m))))\<rparr>))"
  unfolding np_cov_def cov_geometry_def Let_def prod.case fact_of_def view_rows_def
    view_rows_if_empty view_rows_if_length
  by (rule refl)

lemma np_cov_st_geometry:
  "np_cov_st v h p =
     (if 2 < ndim (h ! p) then (Inl (ValueError ''m has more than 2 dimensions''), h)
      else
        case cov_geometry v (h ! p) of (sh, r, c, t) \<Rightarrow>
          if (if t then c else r) = 0 then
            (Inr (Suc (length h)),
             h @ [\<lparr>shape = sh, data = data (h ! p)\<rparr>, \<lparr>shape = [0, 0], data = []\<rparr>])
          else
            let k = (if t then c else r);
                avg = map np_mean (view_rows t r c (data (h ! p)));
                X = view_rows t r c (isub_avg t c (data (h ! p)) avg);
                cd = map (\<lambda>x. x * (Fin 1 / Fin (fact_of (if t then r else c))))
                       (concat (map (\<lambda>x. map (\<lambda>y. np_dot x y) X) X))
            in (Inr (length h + 3),
                h @ [\<lparr>shape = sh, data = isub_avg t c (data (h ! p)) avg\<rparr>,
                     \<lparr>shape = [k], data = avg\<rparr>,
                     \<lparr>shape = [k, k], data = cd\<rparr>,
                     squeeze \<lparr>shape = [k, k], data = cd\<rparr>]))"
proof -
  have a: "(xs @ [x]) ! length xs = x" for xs :: store and x by simp
  have b: "(xs @ [x, y]) ! length xs = x" for xs :: store and x y by simp
  have b': "(xs @ [x, y]) ! Suc (length xs) = y" for xs :: store and x y
    by (simp add: nth_append)
  have c: "(xs @ [x, y])[length xs := z] = xs @ [z, y]" for xs :: store and x y z
    by (simp add: list_update_append)
  have d: "(xs @ [x, y, z]) ! (Suc (Suc (length xs))) = z" for xs :: store and x y z
    by (simp add: nth_append)
  have e: "(xs @ [x, y, z])[Suc (Suc (length xs)) := w] = xs @ [x, y, w]" for xs :: store and x y z w
    by (simp add: list_update_append)
  have l: "length (xs @ [x]) = Suc (length xs)" "length (xs @ [x, y]) = Suc (Suc (length xs))"
    "length (xs @ [x, y, z]) = length xs + 3"
    for xs :: store and x y z by simp_all
  have ap: "(xs @ [x]) @ [y] = xs @ [x, y]" "(xs @ [x, y]) @ [z] = xs @ [x, y, z]"
    "(xs @ [x, y, z]) @ [w] = xs @ [x, y, z, w]" for xs :: store and x y z w
    by simp_all
  show ?thesis
    unfolding np_cov_st_def cov_geometry_def Let_def prod.case fact_of_def alloc_def
    by (simp only: a b b' c d e l ap ndarray.simps)
qed

lemma cov_geometry_length:
  assumes "wf_ndarray m" and "\<not> 2 < ndim m" and "cov_geometry v m = (sh, r, c, t)"
  shows "length (data m) = r * c"
proof -
  have "prod_list (replicate (2 - ndim m) 1 @ shape m)
        = (replicate (2 - ndim m) 1 @ shape m) ! 0 * (replicate (2 - ndim m) 1 @ shape m) ! 1"
    unfolding ndim_def by (rule padded_shape) (use assms(2) in \<open>simp add: ndim_def\<close>)
  moreover have "r = (replicate (2 - ndim m) 1 @ shape m) ! 0"
    "c = (replicate (2 - ndim m) 1 @ shape m) ! 1"
    using assms(3) by (auto simp add: cov_geometry_def Let_def)
  ultimately show ?thesis
    using assms(1) by (simp add: wf_ndarray_def)
qed

lemma scale_concat:
  "map (\<lambda>x. x * s) (concat (map (\<lambda>a. map (\<lambda>b. np_dot a b) X) X))
   = concat (map (\<lambda>a. map (\<lambda>b. np_dot a b * s) X) X)"
  by (simp add: map_concat comp_def)

lemma np_cov_st_spec:
  assumes "p < length h" and "wf_ndarray (h ! p)"
  shows "take (length h) (snd (np_cov_st v h p)) = h \<and>
         outcome (np_cov_st v h p) = np_cov v (h ! p)"
proof (cases "2 < ndim (h ! p)")
  case True
  then show ?thesis
    by (simp add: np_cov_st_geometry np_cov_geometry outcome_def)
next
  case False
  obtain sh r c t where g: "cov_geometry v (h ! p) = (sh, r, c, t)"
    by (cases "cov_geometry v (h ! p)") auto
  have len: "length (data (h ! p)) = r * c"
    by (rule cov_geometry_length [OF assms(2) False g])
  have centred: "view_rows t r c (isub_avg t c (data (h ! p))
                    (map np_mean (view_rows t r c (data (h ! p)))))
                 = map centre (view_rows t r c (data (h ! p)))"
    by (rule view_rows_isub_avg [OF len])
  show ?thesis
  proof (cases "(if t then c else r) = 0")
    case True
    then show ?thesis
      using False by (simp add: np_cov_st_geometry np_cov_geometry g outcome_def nth_append)
  next
    case z: False
    have "np_cov_st v h p =
        (Inr (length h + 3),
         h @ [\<lparr>shape = sh, data = isub_avg t c (data (h ! p))
                   (map np_mean (view_rows t r c (data (h ! p))))\<rparr>,
              \<lparr>shape = [if t then c else r], data = map np_mean (view_rows t r c (data (h ! p)))\<rparr>,
              \<lparr>shape = [if t then c else r, if t then c else r],
                data = concat (map (\<lambda>a. map (\<lambda>b. np_dot a b * (Fin 1 / Fin (fact_of (if t then r else c))))
                                        (map centre (view_rows t r c (data (h ! p)))))
                          (map centre (view_rows t r c (data (h ! p)))))\<rparr>,
              squeeze \<lparr>shape = [if t then c else r, if t then c else r],
                data = concat (map (\<lambda>a. map (\<lambda>b. np_dot a b * (Fin 1 / Fin (fact_of (if t then r else c))))
                                        (map centre (view_rows t r c (data (h ! p)))))
                          (map centre (view_rows t r c (data (h ! p)))))\<rparr>])"
      using False z
      by (simp only: np_cov_st_geometry g prod.case Let_def if_False centred scale_concat)
    moreover have "np_cov v (h ! p) =
        Inr (squeeze \<lparr>shape = [if t then c else r, if t then c else r],
                data = concat (map (\<lambda>a. map (\<lambda>b. np_dot a b * (Fin 1 / Fin (fact_of (if t then r else c))))
                                        (map centre (view_rows t r c (data (h ! p)))))
                          (map centre (view_rows t r c (data (h ! p)))))\<rparr>)"
      using False z by (simp only: np_cov_geometry g prod.case if_False)
    ultimately show ?thesis
      by (simp add: outcome_def nth_append)
  qed
qed

lemma tc_covar_st_spec:
  assumes "p < length h" and "wf_ndarray (h ! p)"
  shows "take (length h) (snd (tc_covar_st v h p)) = h \<and>
         outcome (tc_covar_st v h p) = tc_covar v (h ! p)"
proof -
  obtain r h1 where st: "np_cov_st v h p = (r, h1)" by (cases "np_cov_st v h p")
  from np_cov_st_spec [OF assms, of v] st
  have pre: "take (length h) h1 = h" and val: "map_sum id (\<lambda>a. h1 ! a) r = np_cov v (h ! p)"
    by (simp_all add: outcome_def)
  have le: "length h \<le> length h1"
    using pre by (metis length_take min.cobounded1)
  show ?thesis
  proof (cases "ndim (h ! p) \<noteq> 2 \<or> shape (h ! p) ! 1 \<noteq> 3")
    case True
    then show ?thesis
      by (auto simp add: tc_covar_st_def tc_covar_def outcome_def Let_def)
  next
    case False
    show ?thesis
    proof (cases r)
      case (Inl e)
      with val have "np_cov v (h ! p) = Inl e" by simp
      then show ?thesis
        using False Inl st pre
        by (simp add: tc_covar_st_def tc_covar_from_covar outcome_def Let_def)
    next
      case (Inr a)
      with val have c: "np_cov v (h ! p) = Inr (h1 ! a)" by simp
      show ?thesis
      proof (cases "tc_from_covar (h1 ! a)")
        case (Inl e)
        then show ?thesis
          using False Inr st pre c
          by (simp add: tc_covar_st_def tc_covar_from_covar outcome_def Let_def)
      next
        case evar: (Inr evar)
        then show ?thesis
          using False Inr st pre c le
          by (simp add: tc_covar_st_def tc_covar_from_covar outcome_def Let_def alloc_def)
      qed
    qed
  qed
qed

text \<open>
  Claim C9. A call of \<open>tc_covar\<close> leaves every array that existed before the call as it
  was, the argument included: all it does to the store is to add new objects. What it
  returns (the error, or the contents of the array returned) is the value of the
  function \<open>tc_covar\<close> at the contents of the argument, so it depends on nothing else in
  the store, and two calls on equal arguments return equal results, in any two stores
  and in particular one after the other.
\<close>

theorem tc_covar_pure:
  assumes "p < length h" and "wf_ndarray (h ! p)"
  shows "take (length h) (snd (tc_covar_st v h p)) = h \<and>
         outcome (tc_covar_st v h p) = tc_covar v (h ! p) \<and>
         (\<forall>g q. q < length g \<and> g ! q = h ! p \<longrightarrow>
            outcome (tc_covar_st v g q) = outcome (tc_covar_st v h p)) \<and>
         outcome (tc_covar_st v (snd (tc_covar_st v h p)) p) = outcome (tc_covar_st v h p)"
proof -
  note s = tc_covar_st_spec [OF assms, of v]
  have two: "outcome (tc_covar_st v g q) = outcome (tc_covar_st v h p)"
    if "q < length g" "g ! q = h ! p" for g q
  proof -
    have "wf_ndarray (g ! q)" using that(2) assms(2) by simp
    from tc_covar_st_spec [OF that(1) this, of v] s that(2) show ?thesis by simp
  qed
  let ?h' = "snd (tc_covar_st v h p)"
  have le: "length h \<le> length ?h'"
    using s by (metis length_take min.cobounded1)
  have "?h' ! p = take (length h) ?h' ! p"
    using assms(1) by simp
  then have same: "?h' ! p = h ! p" using s by simp
  have "p < length ?h'" using assms(1) le by simp
  from two [OF this same] s two show ?thesis by blast
qed

theorem tc_covar_pure_witness:
  "(0::nat) < length two_arrays \<and> wf_ndarray (two_arrays ! 0) \<and>
   take (length two_arrays) (snd (tc_covar_st Since_2_2 two_arrays 0)) = two_arrays \<and>
   outcome (tc_covar_st Since_2_2 two_arrays 0)
     = Inr \<lparr>shape = [3], data = [Fin (10 / 3), Fin 2, Fin (5 / 4)]\<rparr> \<and>
   outcome (tc_covar_st Since_2_2 (snd (tc_covar_st Since_2_2 two_arrays 0)) 0)
     = Inr \<lparr>shape = [3], data = [Fin (10 / 3), Fin 2, Fin (5 / 4)]\<rparr>"
proof -
  have h1: "(0::nat) < length two_arrays" by (simp add: two_arrays_def)
  have h2: "wf_ndarray (two_arrays ! 0)"
    by (simp add: two_arrays_def wf_ndarray_def tc_example_def)
  have tc: "tc_covar Since_2_2 (two_arrays ! 0)
      = Inr \<lparr>shape = [3], data = [Fin (10 / 3), Fin 2, Fin (5 / 4)]\<rparr>"
    by (simp add: two_arrays_def tc_example_def tc_covar_eval)
  from tc_covar_pure [OF h1 h2, of Since_2_2] tc h1 h2 show ?thesis by simp
qed

end
